theory Spec2Isabelle
  imports Complex_Main
begin

section \<open>Data model of the contour manager\<close>

text \<open>
  The development follows \<^verbatim>\<open>src/editor/curves/ContourManager.ts\<close>. Names of the
  source are kept. A \<^verbatim>\<open>c3d.SimpleName\<close> is a number; a \<^verbatim>\<open>c3d.Placement3D\<close> is an
  object that the source only stores in a \<^verbatim>\<open>Set\<close>, so it is represented by its identity.
\<close>

type_synonym SimpleName = nat
type_synonym Placement3D = nat

text \<open>\<^verbatim>\<open>class PointOnCurve\<close>, \<^verbatim>\<open>class Joint\<close>, \<^verbatim>\<open>class Joints\<close>, \<^verbatim>\<open>class CurveInfo\<close>.\<close>

record PointOnCurve =
  curve_id :: SimpleName
  t :: real
  tmin :: real
  tmax :: real

definition isTmin :: "PointOnCurve \<Rightarrow> bool" where
  "isTmin p = (t p = tmin p)"

definition isTmax :: "PointOnCurve \<Rightarrow> bool" where
  "isTmax p = (t p = tmax p)"

record Joint =
  on1 :: PointOnCurve
  on2 :: PointOnCurve

record Joints =
  start :: "Joint option"
  stop :: "Joint option"

record CurveInfo =
  touched :: "SimpleName list"
  fragments :: "SimpleName list"
  joints :: Joints
  planarCurve :: SimpleName
  placement :: Placement3D

text \<open>
  \<^verbatim>\<open>type CurveSet = Set<c3d.SimpleName>\<close>. A JavaScript \<^verbatim>\<open>Set\<close> holds each element once
  and is iterated in insertion order, so it is a list without repetition; \<open>set_add\<close> is
  \<^verbatim>\<open>Set.prototype.add\<close>.
\<close>

type_synonym CurveSet = "SimpleName list"

definition set_add :: "'a \<Rightarrow> 'a list \<Rightarrow> 'a list" where
  "set_add x xs = (if x \<in> set xs then xs else xs @ [x])"

record Transaction =
  dirty :: CurveSet
  added :: CurveSet
  deleted :: CurveSet

definition empty_transaction :: Transaction where
  "empty_transaction = \<lparr> dirty = [], added = [], deleted = [] \<rparr>"

text \<open>\<^verbatim>\<open>type State = { tag: 'none' } | { tag: 'transaction', transaction: Transaction }\<close>\<close>

datatype State = State_none | State_transaction Transaction

text \<open>
  \<^verbatim>\<open>visual.Item\<close> has the three concrete subclasses \<^verbatim>\<open>Solid\<close>, \<^verbatim>\<open>SpaceInstance\<close> and
  \<^verbatim>\<open>PlaneInstance\<close> (VisualModel); each carries its \<^verbatim>\<open>simpleName\<close>. The kernel models
  (\<^verbatim>\<open>c3d.Item\<close>) come in the same three kinds.
\<close>

datatype Item = Solid SimpleName | SpaceInstance SimpleName | PlaneInstance SimpleName

fun simpleName :: "Item \<Rightarrow> SimpleName" where
  "simpleName (Solid n) = n"
| "simpleName (SpaceInstance n) = n"
| "simpleName (PlaneInstance n) = n"

fun instanceof_SpaceInstance :: "Item \<Rightarrow> bool" where
  "instanceof_SpaceInstance (SpaceInstance n) = True"
| "instanceof_SpaceInstance (Solid n) = False"
| "instanceof_SpaceInstance (PlaneInstance n) = False"

datatype c3d_Item = c3d_Solid nat | c3d_SpaceInstance nat | c3d_PlaneInstance nat

text \<open>
  Errors. \<open>InvalidState\<close> is the \<^verbatim>\<open>Error\<close> thrown at line 163 with its message;
  \<open>TypeError\<close> is what JavaScript throws when \<^verbatim>\<open>info.placement\<close> is read from
  \<^verbatim>\<open>undefined\<close>; \<open>NotFound\<close> and \<open>Failure\<close> are errors raised by a collaborator.
\<close>

datatype error = InvalidState string | TypeError | NotFound SimpleName | Failure string

section \<open>Collaborators and effects\<close>

text \<open>
  The manager owns one field, \<^verbatim>\<open>state\<close>, and talks to three collaborators: the
  database behind the proxy (\<^verbatim>\<open>this.db\<close>), the \<^verbatim>\<open>PlanarCurveDatabase\<close>
  (\<^verbatim>\<open>this.curves\<close>) and the \<^verbatim>\<open>RegionManager\<close> (\<^verbatim>\<open>this.regions\<close>). None of the three
  is part of the sources at hand, so their methods are parameters: each acts on the
  collaborators' own state \<open>'x\<close> and either returns or throws. \<^verbatim>\<open>lookup\<close> only reads;
  its result is a record, \<^verbatim>\<open>undefined\<close> (the value line 177 tests for), or a throw.
  \<^verbatim>\<open>lookup\<close> is called with a curve (lines 123, 134) and with a name (line 176); both are
  keyed here by the name. \<^verbatim>\<open>cascade\<close> receives the transaction object and may change it;
  \<^verbatim>\<open>commit\<close> is taken to read it only. \<^verbatim>\<open>remove\<close> and \<^verbatim>\<open>cascade\<close> are called without
  \<^verbatim>\<open>await\<close> and are taken to be synchronous.
\<close>

record ('x, 'r) collaborators =
  db_hide :: "Item \<Rightarrow> 'x \<Rightarrow> (error + 'r) \<times> 'x"
  db_unhide :: "Item \<Rightarrow> 'x \<Rightarrow> (error + 'r) \<times> 'x"
  db_makeVisible :: "Item \<Rightarrow> bool \<Rightarrow> 'x \<Rightarrow> (error + unit) \<times> 'x"
  db_unhideAll :: "'x \<Rightarrow> (error + Item list) \<times> 'x"
  db_addItem :: "c3d_Item \<Rightarrow> string \<Rightarrow> 'x \<Rightarrow> (error + Item) \<times> 'x"
  db_replaceItem :: "Item \<Rightarrow> c3d_Item \<Rightarrow> 'x \<Rightarrow> (error + Item) \<times> 'x"
  db_removeItem :: "Item \<Rightarrow> string option \<Rightarrow> 'x \<Rightarrow> (error + unit) \<times> 'x"
  curves_add :: "Item \<Rightarrow> 'x \<Rightarrow> (error + unit) \<times> 'x"
  curves_lookup :: "SimpleName \<Rightarrow> 'x \<Rightarrow> error + CurveInfo option"
  curves_remove :: "Item \<Rightarrow> 'x \<Rightarrow> (error + unit) \<times> 'x"
  curves_cascade :: "Item \<Rightarrow> Transaction \<Rightarrow> 'x \<Rightarrow> (error + unit) \<times> Transaction \<times> 'x"
  curves_commit :: "Transaction \<Rightarrow> 'x \<Rightarrow> (error + unit) \<times> 'x"
  regions_updatePlacement :: "Placement3D \<Rightarrow> 'x \<Rightarrow> (error + unit) \<times> 'x"

text \<open>
  Every call that the manager makes to a collaborator and that may have an effect is
  appended to \<open>calls\<close> when it is made, whether it then returns or throws.
\<close>

datatype call =
    Db_hide Item
  | Db_unhide Item
  | Db_makeVisible Item bool
  | Db_unhideAll
  | Db_addItem c3d_Item string
  | Db_replaceItem Item c3d_Item
  | Db_removeItem Item "string option"
  | Curves_add Item
  | Curves_remove Item
  | Curves_cascade Item
  | Curves_commit Transaction
  | Regions_updatePlacement Placement3D

record 'x world =
  state :: State
  ext :: 'x
  calls :: "call list"

text \<open>
  An \<^verbatim>\<open>async\<close> method is a function from the world to its outcome (\<open>Inl\<close> a thrown
  error, \<open>Inr\<close> the value) and the world it leaves; \<^verbatim>\<open>await\<close> is sequencing.
\<close>

type_synonym ('a, 'x) action = "'x world \<Rightarrow> (error + 'a) \<times> 'x world"

definition ret :: "'a \<Rightarrow> ('a, 'x) action" where
  "ret v w = (Inr v, w)"

definition throw :: "error \<Rightarrow> ('a, 'x) action" where
  "throw e w = (Inl e, w)"

definition andThen :: "('a, 'x) action \<Rightarrow> ('a \<Rightarrow> ('b, 'x) action) \<Rightarrow> ('b, 'x) action" where
  "andThen m k w = (case m w of (Inl e, w') \<Rightarrow> (Inl e, w') | (Inr v, w') \<Rightarrow> k v w')"

definition catch :: "('a, 'x) action \<Rightarrow> (error \<Rightarrow> ('a, 'x) action) \<Rightarrow> ('a, 'x) action" where
  "catch m h w = (case m w of (Inl e, w') \<Rightarrow> h e w' | (Inr v, w') \<Rightarrow> (Inr v, w'))"

definition invoke :: "call \<Rightarrow> ('x \<Rightarrow> (error + 'a) \<times> 'x) \<Rightarrow> ('a, 'x) action" where
  "invoke c m w = (case m (ext w) of (r, x') \<Rightarrow> (r, w\<lparr> ext := x', calls := calls w @ [c] \<rparr>))"

definition lookup :: "('x, 'r) collaborators \<Rightarrow> SimpleName \<Rightarrow> (CurveInfo option, 'x) action" where
  "lookup C n w = (curves_lookup C n (ext w), w)"

section \<open>The contour manager\<close>

text \<open>
  \<^verbatim>\<open>addCurve\<close>, lines 119 to 129. Reading \<^verbatim>\<open>info.placement\<close> from \<^verbatim>\<open>undefined\<close> throws.
\<close>

definition addCurve :: "('x, 'r) collaborators \<Rightarrow> Item \<Rightarrow> (unit, 'x) action" where
  "addCurve C curve w =
    (case state w of
       State_none \<Rightarrow>
         andThen (invoke (Curves_add curve) (curves_add C curve)) (\<lambda>_.
         andThen (lookup C (simpleName curve)) (\<lambda>info.
           case info of
             None \<Rightarrow> throw TypeError
           | Some i \<Rightarrow> invoke (Regions_updatePlacement (placement i))
                        (regions_updatePlacement C (placement i)))) w
     | State_transaction tr \<Rightarrow>
         (Inr (), w\<lparr> state := State_transaction
                      (tr\<lparr> added := set_add (simpleName curve) (added tr) \<rparr>) \<rparr>))"

text \<open>
  \<^verbatim>\<open>removeCurve\<close>, lines 131 to 141. In the idle state \<^verbatim>\<open>remove\<close> is called before
  \<^verbatim>\<open>info.placement\<close> is read. In a transaction \<^verbatim>\<open>cascade\<close> is handed the transaction
  object of the state and the object is whatever \<^verbatim>\<open>cascade\<close> leaves.
\<close>

definition removeCurve :: "('x, 'r) collaborators \<Rightarrow> Item \<Rightarrow> (unit, 'x) action" where
  "removeCurve C curve w =
    (case state w of
       State_none \<Rightarrow>
         andThen (lookup C (simpleName curve)) (\<lambda>info.
         andThen (invoke (Curves_remove curve) (curves_remove C curve)) (\<lambda>_.
           case info of
             None \<Rightarrow> throw TypeError
           | Some i \<Rightarrow> invoke (Regions_updatePlacement (placement i))
                        (regions_updatePlacement C (placement i)))) w
     | State_transaction tr \<Rightarrow>
         (case curves_cascade C curve tr (ext w) of
            (r, tr', x') \<Rightarrow>
              (r, w\<lparr> state := State_transaction tr', ext := x',
                     calls := calls w @ [Curves_cascade curve] \<rparr>)))"

text \<open>\<^verbatim>\<open>placementsAffectedByTransaction\<close>, lines 174 to 179; \<open>placements\<close> is a \<^verbatim>\<open>Set\<close>.\<close>

fun placementsAffectedByTransaction ::
  "(SimpleName \<Rightarrow> error + CurveInfo option) \<Rightarrow> CurveSet \<Rightarrow> Placement3D list
    \<Rightarrow> error + Placement3D list" where
  "placementsAffectedByTransaction look [] placements = Inr placements"
| "placementsAffectedByTransaction look (c # cs) placements =
    (case look c of
       Inl e \<Rightarrow> Inl e
     | Inr None \<Rightarrow> placementsAffectedByTransaction look cs placements
     | Inr (Some info) \<Rightarrow>
         placementsAffectedByTransaction look cs (set_add (placement info) placements))"

definition placementsAffected ::
  "('x, 'r) collaborators \<Rightarrow> CurveSet \<Rightarrow> Placement3D list \<Rightarrow> (Placement3D list, 'x) action" where
  "placementsAffected C cs placements w =
    (placementsAffectedByTransaction (\<lambda>c. curves_lookup C c (ext w)) cs placements, w)"

text \<open>The loop of line 156.\<close>

fun updatePlacements :: "('x, 'r) collaborators \<Rightarrow> Placement3D list \<Rightarrow> (unit, 'x) action" where
  "updatePlacements C [] = ret ()"
| "updatePlacements C (p # ps) =
    andThen (invoke (Regions_updatePlacement p) (regions_updatePlacement C p))
      (\<lambda>_. updatePlacements C ps)"

text \<open>
  \<^verbatim>\<open>transaction\<close>, lines 143 to 165. The local constant \<^verbatim>\<open>transaction\<close> and
  \<^verbatim>\<open>this.state.transaction\<close> are one object: \<^verbatim>\<open>this.state\<close> is assigned at lines 147 and
  159 only, and a nested call throws at line 163 before it reaches line 147. After the
  body the object is therefore read back from the state; \<open>the_transaction\<close> gives the empty
  transaction for a state without one, which a body acting through the manager never
  leaves. \<open>after_body\<close> is lines 150 to 157, the rest of the \<^verbatim>\<open>try\<close> block.
\<close>

fun the_transaction :: "State \<Rightarrow> Transaction" where
  "the_transaction (State_transaction tr) = tr"
| "the_transaction State_none = empty_transaction"

definition after_body :: "('x, 'r) collaborators \<Rightarrow> Transaction \<Rightarrow> (unit, 'x) action" where
  "after_body C tr =
     andThen (placementsAffected C (dirty tr) []) (\<lambda>ps1.
     andThen (placementsAffected C (deleted tr) ps1) (\<lambda>ps2.
     andThen (invoke (Curves_commit tr) (curves_commit C tr)) (\<lambda>_.
     andThen (placementsAffected C (added tr) ps2) (\<lambda>ps3.
       if length (dirty tr) > 0 \<or> length (added tr) > 0 \<or> length (deleted tr) > 0
       then updatePlacements C ps3
       else ret ()))))"

definition transaction :: "('x, 'r) collaborators \<Rightarrow> (unit, 'x) action \<Rightarrow> (unit, 'x) action" where
  "transaction C f w =
    (case state w of
       State_none \<Rightarrow>
         (case andThen f (\<lambda>_ w2. after_body C (the_transaction (state w2)) w2)
                 (w\<lparr> state := State_transaction empty_transaction \<rparr>) of
            (r, w') \<Rightarrow> (r, w'\<lparr> state := State_none \<rparr>))
     | State_transaction tr \<Rightarrow> (Inl (InvalidState ''invalid state: transaction''), w))"

text \<open>
  The item operations, lines 46 to 117. They share one shape: the database call first,
  then the curve calls when the tested item is a \<^verbatim>\<open>SpaceInstance\<close>, then the database's
  result.
\<close>

definition hide :: "('x, 'r) collaborators \<Rightarrow> Item \<Rightarrow> ('r, 'x) action" where
  "hide C item =
     andThen (invoke (Db_hide item) (db_hide C item)) (\<lambda>result.
       if instanceof_SpaceInstance item
       then andThen (removeCurve C item) (\<lambda>_. ret result)
       else ret result)"

definition unhide :: "('x, 'r) collaborators \<Rightarrow> Item \<Rightarrow> ('r, 'x) action" where
  "unhide C item =
     andThen (invoke (Db_unhide item) (db_unhide C item)) (\<lambda>result.
       if instanceof_SpaceInstance item
       then andThen (addCurve C item) (\<lambda>_. ret result)
       else ret result)"

definition makeVisible :: "('x, 'r) collaborators \<Rightarrow> Item \<Rightarrow> bool \<Rightarrow> (unit, 'x) action" where
  "makeVisible C item val =
     andThen (invoke (Db_makeVisible item val) (db_makeVisible C item val)) (\<lambda>result.
       if instanceof_SpaceInstance item
       then andThen (if val then addCurve C item else removeCurve C item) (\<lambda>_. ret result)
       else ret result)"

text \<open>
  \<^verbatim>\<open>unhideAll\<close>, lines 75 to 85, which the source marks
  \<^verbatim>\<open>FIXME, this should be in a contour transaction\<close>. The loop of lines 78 to 82 calls
  \<^verbatim>\<open>addCurve\<close> for every unhidden \<^verbatim>\<open>SpaceInstance\<close> before anything is awaited, and a
  call of an \<^verbatim>\<open>async\<close> method runs up to its first \<^verbatim>\<open>await\<close>: in the idle state
  \<^verbatim>\<open>addCurve\<close> calls \<^verbatim>\<open>add\<close> and is suspended there (line 122), in a transaction it adds
  the name and has finished (line 127). \<open>addCurve_start_each\<close> is that loop; it gives the
  suspended calls with the outcome of their \<^verbatim>\<open>add\<close>.
\<close>

type_synonym started = "Item \<times> (error + unit)"

fun addCurve_start_each ::
  "('x, 'r) collaborators \<Rightarrow> Item list \<Rightarrow> 'x world \<Rightarrow> started list \<times> 'x world" where
  "addCurve_start_each C [] w = ([], w)"
| "addCurve_start_each C (item # items) w =
    (if instanceof_SpaceInstance item
     then (case state w of
             State_none \<Rightarrow>
               (case invoke (Curves_add item) (curves_add C item) w of
                  (r, w1) \<Rightarrow>
                    (case addCurve_start_each C items w1 of
                       (suspended, w2) \<Rightarrow> ((item, r) # suspended, w2)))
           | State_transaction tr \<Rightarrow>
               (case addCurve C item w of (r, w1) \<Rightarrow> addCurve_start_each C items w1))
     else addCurve_start_each C items w)"

text \<open>
  \<^verbatim>\<open>await Promise.all(promises)\<close>, line 83, lets the suspended calls go on in the order
  in which they were started. A call whose \<^verbatim>\<open>add\<close> threw ends with that error. The
  others look their record up and call \<^verbatim>\<open>updatePlacement\<close> (lines 123 and 124), where
  they are suspended once more, and end when that call has settled. A call of a
  collaborator is taken to have its effect when it is made and to settle before any call
  made later. \<open>addCurve_resume_each\<close> gives the errors in the order in which they come:
  first those of \<^verbatim>\<open>add\<close>, of \<^verbatim>\<open>lookup\<close> and of reading \<^verbatim>\<open>placement\<close> from
  \<^verbatim>\<open>undefined\<close>, then those of \<^verbatim>\<open>updatePlacement\<close>.
\<close>

fun addCurve_resume_each ::
  "('x, 'r) collaborators \<Rightarrow> started list \<Rightarrow> 'x world
    \<Rightarrow> (error list \<times> error list) \<times> 'x world" where
  "addCurve_resume_each C [] w = (([], []), w)"
| "addCurve_resume_each C ((curve, Inl e) # suspended) w =
    (case addCurve_resume_each C suspended w of
       ((early, late), w') \<Rightarrow> ((e # early, late), w'))"
| "addCurve_resume_each C ((curve, Inr u) # suspended) w =
    (case curves_lookup C (simpleName curve) (ext w) of
       Inl e \<Rightarrow>
         (case addCurve_resume_each C suspended w of
            ((early, late), w') \<Rightarrow> ((e # early, late), w'))
     | Inr None \<Rightarrow>
         (case addCurve_resume_each C suspended w of
            ((early, late), w') \<Rightarrow> ((TypeError # early, late), w'))
     | Inr (Some info) \<Rightarrow>
         (case invoke (Regions_updatePlacement (placement info))
                 (regions_updatePlacement C (placement info)) w of
            (r, w1) \<Rightarrow>
              (case addCurve_resume_each C suspended w1 of
                 ((early, late), w') \<Rightarrow>
                   ((early, (case r of Inl e \<Rightarrow> [e] | Inr v \<Rightarrow> []) @ late), w'))))"

text \<open>\<^verbatim>\<open>Promise.all\<close> resolves when no call threw and rejects with the first error in time.\<close>

definition settle :: "error list \<times> error list \<Rightarrow> 'a \<Rightarrow> error + 'a" where
  "settle errors v = (case fst errors @ snd errors of [] \<Rightarrow> Inr v | e # es \<Rightarrow> Inl e)"

definition unhideAll :: "('x, 'r) collaborators \<Rightarrow> (Item list, 'x) action" where
  "unhideAll C =
     andThen (invoke Db_unhideAll (db_unhideAll C)) (\<lambda>unhidden w.
       case addCurve_start_each C unhidden w of
         (suspended, w1) \<Rightarrow>
           (case addCurve_resume_each C suspended w1 of
              (errors, w2) \<Rightarrow> (settle errors unhidden, w2)))"

text \<open>
  \<^verbatim>\<open>addItem\<close>, lines 90 to 96, tests the result of the database. \<open>agent_or_user\<close> is the
  default value of the parameter, \<^verbatim>\<open>agent: Agent = 'user'\<close>.
\<close>

definition agent_or_user :: "string option \<Rightarrow> string" where
  "agent_or_user agent = (case agent of None \<Rightarrow> ''user'' | Some s \<Rightarrow> s)"

definition addItem :: "('x, 'r) collaborators \<Rightarrow> c3d_Item \<Rightarrow> string option \<Rightarrow> (Item, 'x) action" where
  "addItem C model agent =
     andThen (invoke (Db_addItem model (agent_or_user agent))
                (db_addItem C model (agent_or_user agent))) (\<lambda>result.
       if instanceof_SpaceInstance result
       then andThen (addCurve C result) (\<lambda>_. ret result)
       else ret result)"

text \<open>\<^verbatim>\<open>replaceItem\<close> tests \<^verbatim>\<open>from\<close> and casts the result; the agent is not passed on.\<close>

definition replaceItem :: "('x, 'r) collaborators \<Rightarrow> Item \<Rightarrow> c3d_Item \<Rightarrow> (Item, 'x) action" where
  "replaceItem C from to =
     andThen (invoke (Db_replaceItem from to) (db_replaceItem C from to)) (\<lambda>result.
       if instanceof_SpaceInstance from
       then andThen (removeCurve C from) (\<lambda>_.
            andThen (addCurve C result) (\<lambda>_. ret result))
       else ret result)"

definition removeItem :: "('x, 'r) collaborators \<Rightarrow> Item \<Rightarrow> string option \<Rightarrow> (unit, 'x) action" where
  "removeItem C view agent =
     andThen (invoke (Db_removeItem view agent) (db_removeItem C view agent)) (\<lambda>result.
       if instanceof_SpaceInstance view
       then andThen (removeCurve C view) (\<lambda>_. ret result)
       else ret result)"

section \<open>The collaborators' contracts\<close>

text \<open>
  Modelled from the spec: the state of the collaborators, none of which is in the sources
  (\<^verbatim>\<open>PlanarCurveDatabase\<close>, \<^verbatim>\<open>RegionManager\<close>, the database behind the proxy). It holds
  the table from curve to \<^verbatim>\<open>CurveInfo\<close> that the index owns, the plane each curve lies on
  (geometry, decided outside), the hidden items and the database's name counter.
\<close>

record store =
  curve2info :: "SimpleName \<rightharpoonup> CurveInfo"
  plane_of :: "SimpleName \<Rightarrow> Placement3D"
  hidden :: "Item list"
  counter :: nat

text \<open>
  Modelled from the spec: a step of \<^verbatim>\<open>PlanarCurveDatabase.cascade\<close>, which is not in the
  sources. For a joint of \<open>c\<close> the other curve that the joint references is identified.
\<close>

definition other_curve :: "SimpleName \<Rightarrow> Joint \<Rightarrow> SimpleName" where
  "other_curve c j = (if curve_id (on1 j) = c then curve_id (on2 j) else curve_id (on1 j))"

text \<open>
  Modelled from the spec: a step of \<^verbatim>\<open>PlanarCurveDatabase.cascade\<close>, which is not in the
  sources. The other curves of the joints of \<open>c\<close>, start and stop, if present. A curve
  without a record has no joint.
\<close>

definition partners :: "(SimpleName \<rightharpoonup> CurveInfo) \<Rightarrow> SimpleName \<Rightarrow> SimpleName list" where
  "partners m c =
    (case m c of
       None \<Rightarrow> []
     | Some info \<Rightarrow>
         (case start (joints info) of None \<Rightarrow> [] | Some j \<Rightarrow> [other_curve c j]) @
         (case stop (joints info) of None \<Rightarrow> [] | Some j \<Rightarrow> [other_curve c j]))"

text \<open>
  Modelled from the spec: a step of \<^verbatim>\<open>PlanarCurveDatabase.cascade\<close>, which is not in the
  sources. If the other curve is not already in \<open>deleted\<close> it is added to \<open>dirty\<close>.
\<close>

fun mark_dirty :: "SimpleName list \<Rightarrow> Transaction \<Rightarrow> Transaction" where
  "mark_dirty [] tr = tr"
| "mark_dirty (c' # cs) tr =
    mark_dirty cs (if c' \<in> set (deleted tr) then tr else tr\<lparr> dirty := set_add c' (dirty tr) \<rparr>)"

text \<open>
  Modelled from the spec: \<^verbatim>\<open>PlanarCurveDatabase.cascade\<close>, which is not in the sources.
  When curve \<open>c\<close> is marked for removal inside a transaction, \<open>c\<close> is added to \<open>deleted\<close>,
  then the curves that its joints reference are marked, one hop only.
\<close>

definition cascade :: "(SimpleName \<rightharpoonup> CurveInfo) \<Rightarrow> SimpleName \<Rightarrow> Transaction \<Rightarrow> Transaction" where
  "cascade m c tr = mark_dirty (partners m c) (tr\<lparr> deleted := set_add c (deleted tr) \<rparr>)"

text \<open>
  Modelled from the spec: the precedence rule of the cascade, missing from the sources
  with \<^verbatim>\<open>cascade\<close> and \<^verbatim>\<open>commit\<close>. A curve present in both \<open>deleted\<close> and \<open>dirty\<close> is
  resolved as deleted; the curves that remain dirty are those of \<open>dirty\<close> outside
  \<open>deleted\<close>.
\<close>

definition resolved_dirty :: "Transaction \<Rightarrow> CurveSet" where
  "resolved_dirty tr = filter (\<lambda>c. c \<notin> set (deleted tr)) (dirty tr)"

text \<open>
  Modelled from the spec: the record that \<^verbatim>\<open>PlanarCurveDatabase.add\<close> and \<^verbatim>\<open>commit\<close>
  (not in the sources) create for a curve on its first add. The joints and fragments
  that they compute come from the geometry of the curves, which is outside this
  development; the record is created on the curve's plane with no joint.
\<close>

definition register :: "SimpleName \<Rightarrow> store \<Rightarrow> store" where
  "register n s =
    (case curve2info s n of
       Some info \<Rightarrow> s
     | None \<Rightarrow>
         s\<lparr> curve2info := (curve2info s)(n \<mapsto>
              \<lparr> touched = [], fragments = [], joints = \<lparr> start = None, stop = None \<rparr>,
                planarCurve = n, placement = plane_of s n \<rparr>) \<rparr>)"

text \<open>
  Modelled from the spec: what \<^verbatim>\<open>commit\<close> (not in the sources) does to a dirty curve,
  as far as it does not depend on geometry: the record stays and its joints to deleted
  curves go.
\<close>

definition drop_joints :: "SimpleName list \<Rightarrow> SimpleName \<Rightarrow> CurveInfo \<Rightarrow> CurveInfo" where
  "drop_joints gone c info =
    info\<lparr> joints :=
      \<lparr> start = (case start (joints info) of
                    None \<Rightarrow> None
                  | Some j \<Rightarrow> if other_curve c j \<in> set gone then None else Some j),
        stop = (case stop (joints info) of
                   None \<Rightarrow> None
                 | Some j \<Rightarrow> if other_curve c j \<in> set gone then None else Some j) \<rparr> \<rparr>"

text \<open>
  Modelled from the spec: \<^verbatim>\<open>PlanarCurveDatabase.commit\<close>, which is not in the sources.
  One structural update: the records of \<open>deleted\<close> are removed, the dirty curves that are
  not deleted lose their stale joints, and the curves of \<open>added\<close> get their record.
\<close>

definition commit :: "Transaction \<Rightarrow> store \<Rightarrow> store" where
  "commit tr s =
    fold register (added tr)
      (s\<lparr> curve2info := (\<lambda>c.
            if c \<in> set (deleted tr) then None
            else if c \<in> set (dirty tr) then map_option (drop_joints (deleted tr) c) (curve2info s c)
            else curve2info s c) \<rparr>)"

text \<open>
  Modelled from the spec: the item that the database (not in the sources) builds for a
  model, of the kind of the model and under a given name.
\<close>

fun view_of :: "c3d_Item \<Rightarrow> SimpleName \<Rightarrow> Item" where
  "view_of (c3d_Solid g) n = Solid n"
| "view_of (c3d_SpaceInstance g) n = SpaceInstance n"
| "view_of (c3d_PlaneInstance g) n = PlaneInstance n"

text \<open>
  Modelled from the spec: the collaborators, none of which is in the sources. The
  database operations pass through to an item store and succeed; \<^verbatim>\<open>addItem\<close> and
  \<^verbatim>\<open>replaceItem\<close> give the new item the next name. \<^verbatim>\<open>add\<close> registers the curve,
  \<^verbatim>\<open>remove\<close> removes its record at once, and \<^verbatim>\<open>updatePlacement\<close> rebuilds the regions of
  a plane, which leaves the table as it is. \<^verbatim>\<open>lookup\<close> gives the record of a curve and
  signals \<open>NotFound\<close> for a curve without a record.
\<close>

definition contract :: "(store, unit) collaborators" where
  "contract =
    \<lparr> db_hide = (\<lambda>item s. (Inr (), s\<lparr> hidden := set_add item (hidden s) \<rparr>)),
      db_unhide = (\<lambda>item s. (Inr (), s\<lparr> hidden := removeAll item (hidden s) \<rparr>)),
      db_makeVisible = (\<lambda>item val s.
        (Inr (), s\<lparr> hidden := (if val then removeAll item (hidden s)
                                 else set_add item (hidden s)) \<rparr>)),
      db_unhideAll = (\<lambda>s. (Inr (hidden s), s\<lparr> hidden := [] \<rparr>)),
      db_addItem = (\<lambda>model agent s.
        (Inr (view_of model (counter s)), s\<lparr> counter := Suc (counter s) \<rparr>)),
      db_replaceItem = (\<lambda>from to s.
        (Inr (view_of to (counter s)), s\<lparr> counter := Suc (counter s) \<rparr>)),
      db_removeItem = (\<lambda>view agent s. (Inr (), s\<lparr> hidden := removeAll view (hidden s) \<rparr>)),
      curves_add = (\<lambda>curve s. (Inr (), register (simpleName curve) s)),
      curves_lookup = (\<lambda>n s.
        case curve2info s n of None \<Rightarrow> Inl (NotFound n) | Some info \<Rightarrow> Inr (Some info)),
      curves_remove = (\<lambda>curve s.
        (Inr (), s\<lparr> curve2info := (curve2info s)(simpleName curve := None) \<rparr>)),
      curves_cascade = (\<lambda>curve tr s. (Inr (), cascade (curve2info s) (simpleName curve) tr, s)),
      curves_commit = (\<lambda>tr s. (Inr (), commit tr s)),
      regions_updatePlacement = (\<lambda>p s. (Inr (), s)) \<rparr>"


text \<open>
  Modelled from the spec: what \<^verbatim>\<open>PlanarCurveDatabase.lookup\<close>, which is not in the
  sources, does for a curve known to the index: it gives the record.
\<close>

definition known :: "('x, 'r) collaborators \<Rightarrow> 'x \<Rightarrow> SimpleName \<Rightarrow> bool" where
  "known C x c = (\<exists>info. curves_lookup C c x = Inr (Some info))"


section \<open>Vocabulary of the properties\<close>

text \<open>
  A body that calls \<^verbatim>\<open>addCurve\<close> and \<^verbatim>\<open>removeCurve\<close> in a given order, the curves it
  adds and removes, and the \<^verbatim>\<open>cascade\<close> calls it causes.
\<close>

datatype curve_op = Add Item | Remove Item

fun perform :: "('x, 'r) collaborators \<Rightarrow> curve_op list \<Rightarrow> (unit, 'x) action" where
  "perform C [] = ret ()"
| "perform C (Add curve # ops) = andThen (addCurve C curve) (\<lambda>_. perform C ops)"
| "perform C (Remove curve # ops) = andThen (removeCurve C curve) (\<lambda>_. perform C ops)"

fun added_ids :: "curve_op list \<Rightarrow> SimpleName list" where
  "added_ids [] = []"
| "added_ids (Add curve # ops) = simpleName curve # added_ids ops"
| "added_ids (Remove curve # ops) = added_ids ops"

fun removed_ids :: "curve_op list \<Rightarrow> SimpleName list" where
  "removed_ids [] = []"
| "removed_ids (Add curve # ops) = removed_ids ops"
| "removed_ids (Remove curve # ops) = simpleName curve # removed_ids ops"

fun cascade_calls :: "curve_op list \<Rightarrow> call list" where
  "cascade_calls [] = []"
| "cascade_calls (Add curve # ops) = cascade_calls ops"
| "cascade_calls (Remove curve # ops) = Curves_cascade curve # cascade_calls ops"

text \<open>What one call of the body does to the transaction under \<open>contract\<close>.\<close>

fun record_op :: "(SimpleName \<rightharpoonup> CurveInfo) \<Rightarrow> curve_op \<Rightarrow> Transaction \<Rightarrow> Transaction" where
  "record_op m (Add curve) tr = tr\<lparr> added := set_add (simpleName curve) (added tr) \<rparr>"
| "record_op m (Remove curve) tr = cascade m (simpleName curve) tr"

text \<open>Two curves are jointed when each has a joint that references the other.\<close>

definition jointed :: "(SimpleName \<rightharpoonup> CurveInfo) \<Rightarrow> SimpleName \<Rightarrow> SimpleName \<Rightarrow> bool" where
  "jointed m a b = (b \<in> set (partners m a) \<and> a \<in> set (partners m b))"

definition pairwise_disjoint :: "Transaction \<Rightarrow> bool" where
  "pairwise_disjoint tr =
    (set (added tr) \<inter> set (deleted tr) = {} \<and>
     set (added tr) \<inter> set (dirty tr) = {} \<and>
     set (deleted tr) \<inter> set (dirty tr) = {})"

text \<open>
  Collaborators that honour the calls of \<^verbatim>\<open>addCurve\<close>: \<^verbatim>\<open>add\<close> returns and the curve
  has a record afterwards, \<^verbatim>\<open>updatePlacement\<close> returns, and neither loses the record of
  another curve.
\<close>

definition obliging :: "('x, 'r) collaborators \<Rightarrow> bool" where
  "obliging C =
    ((\<forall>curve x. \<exists>x'. curves_add C curve x = (Inr (), x') \<and> known C x' (simpleName curve) \<and>
        (\<forall>c. known C x c \<longrightarrow> known C x' c)) \<and>
     (\<forall>p x. \<exists>x'. regions_updatePlacement C p x = (Inr (), x') \<and>
        (\<forall>c. known C x c \<longrightarrow> known C x' c)))"

section \<open>Example configurations\<close>

text \<open>
  Three curves on plane 7: curve 1 and curve 2 share a joint at the stop of 1 and the
  start of 2, curve 2 and curve 3 at the stop of 2 and the start of 3.
\<close>

definition joint_between :: "SimpleName \<Rightarrow> SimpleName \<Rightarrow> Joint" where
  "joint_between a b =
    \<lparr> on1 = \<lparr> curve_id = a, t = 1, tmin = 0, tmax = 1 \<rparr>,
      on2 = \<lparr> curve_id = b, t = 0, tmin = 0, tmax = 1 \<rparr> \<rparr>"

definition chain_info :: "SimpleName \<Rightarrow> Joint option \<Rightarrow> Joint option \<Rightarrow> CurveInfo" where
  "chain_info n j1 j2 =
    \<lparr> touched = [], fragments = [], joints = \<lparr> start = j1, stop = j2 \<rparr>,
      planarCurve = n, placement = 7 \<rparr>"

definition chain_table :: "SimpleName \<rightharpoonup> CurveInfo" where
  "chain_table =
    [1 \<mapsto> chain_info 1 None (Some (joint_between 1 2)),
     2 \<mapsto> chain_info 2 (Some (joint_between 1 2)) (Some (joint_between 2 3)),
     3 \<mapsto> chain_info 3 (Some (joint_between 2 3)) None]"

definition chain_store :: store where
  "chain_store =
    \<lparr> curve2info = chain_table, plane_of = (\<lambda>c. 7),
      hidden = [SpaceInstance 4, Solid 5, SpaceInstance 6], counter = 7 \<rparr>"

definition chain_world :: "store world" where
  "chain_world = \<lparr> state = State_none, ext = chain_store, calls = [] \<rparr>"

definition chain_active :: "store world" where
  "chain_active = \<lparr> state = State_transaction empty_transaction, ext = chain_store, calls = [] \<rparr>"

text \<open>Four curves on plane 7, jointed in a chain: 0 and 1, 1 and 2, 2 and 3.\<close>

definition long_table :: "SimpleName \<rightharpoonup> CurveInfo" where
  "long_table =
    [0 \<mapsto> chain_info 0 None (Some (joint_between 0 1)),
     1 \<mapsto> chain_info 1 (Some (joint_between 0 1)) (Some (joint_between 1 2)),
     2 \<mapsto> chain_info 2 (Some (joint_between 1 2)) (Some (joint_between 2 3)),
     3 \<mapsto> chain_info 3 (Some (joint_between 2 3)) None]"

definition long_world :: "store world" where
  "long_world =
    \<lparr> state = State_none,
      ext = \<lparr> curve2info = long_table, plane_of = (\<lambda>c. 7), hidden = [], counter = 7 \<rparr>,
      calls = [] \<rparr>"

definition remove_2_3 :: "curve_op list" where
  "remove_2_3 = [Remove (SpaceInstance 2), Remove (SpaceInstance 3)]"

definition remove_1_2_3 :: "curve_op list" where
  "remove_1_2_3 = [Remove (SpaceInstance 1), Remove (SpaceInstance 2), Remove (SpaceInstance 3)]"

definition add_five :: "curve_op list" where
  "add_five = [Add (SpaceInstance 11), Add (SpaceInstance 12), Add (SpaceInstance 13),
               Add (SpaceInstance 14), Add (SpaceInstance 15)]"

definition remove_then_add :: "curve_op list" where
  "remove_then_add = [Remove (SpaceInstance 2), Add (SpaceInstance 2)]"

definition add_then_remove :: "curve_op list" where
  "add_then_remove = [Add (SpaceInstance 2), Remove (SpaceInstance 2)]"

definition add_1_remove_2 :: "curve_op list" where
  "add_1_remove_2 = [Add (SpaceInstance 1), Remove (SpaceInstance 2)]"

definition add_8_remove_2 :: "curve_op list" where
  "add_8_remove_2 = [Add (SpaceInstance 8), Remove (SpaceInstance 2)]"

definition remove_unknown :: "curve_op list" where
  "remove_unknown = [Remove (SpaceInstance 9)]"

text \<open>Bodies that throw, and collaborators whose commit or rebuild throws.\<close>

definition failing_body :: "(unit, store) action" where
  "failing_body = andThen (perform contract add_8_remove_2) (\<lambda>_. throw (Failure ''body''))"

definition commit_fails :: "(store, unit) collaborators" where
  "commit_fails = contract\<lparr> curves_commit := (\<lambda>tr s. (Inl (Failure ''commit''), s)) \<rparr>"

definition rebuild_fails :: "(store, unit) collaborators" where
  "rebuild_fails = contract\<lparr> regions_updatePlacement := (\<lambda>p s. (Inl (Failure ''rebuild''), s)) \<rparr>"



text \<open>Bodies that start a transaction inside the transaction, catching its error or not.\<close>

definition inner :: "(unit, store) action" where
  "inner = transaction contract (perform contract add_five)"

definition nested_caught :: "(unit, store) action" where
  "nested_caught =
     andThen (perform contract remove_2_3) (\<lambda>_.
     andThen (catch inner (\<lambda>e. ret ())) (\<lambda>_. perform contract add_five))"

definition nested_uncaught :: "(unit, store) action" where
  "nested_uncaught =
     andThen (perform contract remove_2_3) (\<lambda>_.
     andThen inner (\<lambda>_. perform contract add_five))"

definition not_nested :: "(unit, store) action" where
  "not_nested = andThen (perform contract remove_2_3) (\<lambda>_. perform contract add_five)"

section \<open>Auxiliary facts\<close>

lemmas example_defs = chain_world_def chain_active_def chain_store_def chain_table_def
  chain_info_def joint_between_def remove_2_3_def remove_1_2_3_def add_five_def
  remove_then_add_def add_8_remove_2_def remove_unknown_def long_world_def long_table_def
  add_then_remove_def add_1_remove_2_def

lemmas manager_defs = transaction_def after_body_def andThen_def catch_def ret_def throw_def
  placementsAffected_def invoke_def lookup_def addCurve_def removeCurve_def set_add_def
  empty_transaction_def

lemmas contract_defs = contract_def cascade_def partners_def other_curve_def
  commit_def register_def drop_joints_def

subsection \<open>Sets as lists\<close>

lemma set_set_add: "set (set_add x xs) = insert x (set xs)"
  by (auto simp: set_add_def)

lemma distinct_set_add: "distinct xs \<Longrightarrow> distinct (set_add x xs)"
  by (simp add: set_add_def)

subsection \<open>The cascade\<close>

lemma deleted_mark_dirty: "deleted (mark_dirty cs tr) = deleted tr"
  by (induction cs arbitrary: tr) simp_all

lemma added_mark_dirty: "added (mark_dirty cs tr) = added tr"
  by (induction cs arbitrary: tr) simp_all

lemma set_dirty_mark_dirty:
  "set (dirty (mark_dirty cs tr)) = set (dirty tr) \<union> (set cs - set (deleted tr))"
  by (induction cs arbitrary: tr) (auto simp: set_set_add deleted_mark_dirty)

lemma set_deleted_cascade: "set (deleted (cascade m c tr)) = insert c (set (deleted tr))"
  by (simp add: cascade_def deleted_mark_dirty set_set_add)

lemma added_cascade: "added (cascade m c tr) = added tr"
  by (simp add: cascade_def added_mark_dirty)

lemma set_dirty_cascade:
  "set (dirty (cascade m c tr)) =
     set (dirty tr) \<union> (set (partners m c) - insert c (set (deleted tr)))"
  by (simp add: cascade_def set_dirty_mark_dirty set_set_add)

lemma set_added_fold_record_op:
  "set (added (fold (record_op m) ops tr)) = set (added tr) \<union> set (added_ids ops)"
proof (induction ops arbitrary: tr)
  case Nil
  then show ?case by simp
next
  case (Cons op ops)
  then show ?case by (cases op) (auto simp: set_set_add added_cascade)
qed

lemma set_deleted_fold_record_op:
  "set (deleted (fold (record_op m) ops tr)) = set (deleted tr) \<union> set (removed_ids ops)"
proof (induction ops arbitrary: tr)
  case Nil
  then show ?case by simp
next
  case (Cons op ops)
  then show ?case by (cases op) (auto simp: set_deleted_cascade)
qed

lemma dirty_record_op_mono: "set (dirty tr) \<subseteq> set (dirty (record_op m op tr))"
  by (cases op) (auto simp: set_dirty_cascade)

lemma dirty_fold_record_op_mono: "set (dirty tr) \<subseteq> set (dirty (fold (record_op m) ops tr))"
proof (induction ops arbitrary: tr)
  case Nil
  then show ?case by simp
next
  case (Cons op ops)
  have "set (dirty tr) \<subseteq> set (dirty (record_op m op tr))"
    by (rule dirty_record_op_mono)
  also have "\<dots> \<subseteq> set (dirty (fold (record_op m) ops (record_op m op tr)))"
    by (rule Cons.IH)
  finally show ?case by simp
qed

lemma set_dirty_fold_record_op:
  "set (dirty (fold (record_op m) ops tr)) \<subseteq>
     set (dirty tr) \<union> (\<Union>c \<in> set (removed_ids ops). set (partners m c))"
proof (induction ops arbitrary: tr)
  case Nil
  then show ?case by simp
next
  case (Cons op ops)
  show ?case
  proof (cases op)
    case (Add curve)
    then show ?thesis using Cons.IH [of "record_op m op tr"] by simp
  next
    case (Remove curve)
    have "set (dirty (cascade m (simpleName curve) tr))
            \<subseteq> set (dirty tr) \<union> set (partners m (simpleName curve))"
      by (auto simp: set_dirty_cascade)
    then show ?thesis using Cons.IH [of "record_op m op tr"] Remove by auto
  qed
qed

lemma dirty_fold_record_op_member:
  "c \<in> set (removed_ids ops) \<Longrightarrow> a \<in> set (partners m c) \<Longrightarrow>
   a \<notin> set (removed_ids ops) \<Longrightarrow> a \<notin> set (deleted tr) \<Longrightarrow>
   a \<in> set (dirty (fold (record_op m) ops tr))"
proof (induction ops arbitrary: tr)
  case Nil
  then show ?case by simp
next
  case (Cons op ops)
  show ?case
  proof (cases op)
    case (Add curve)
    then show ?thesis using Cons.IH [of "record_op m op tr"] Cons.prems by simp
  next
    case (Remove curve)
    show ?thesis
    proof (cases "simpleName curve = c")
      case True
      have "a \<in> set (dirty (record_op m op tr))"
        using Cons.prems Remove True by (auto simp: set_dirty_cascade)
      then show ?thesis
        using dirty_fold_record_op_mono [of "record_op m op tr" m ops] by auto
    next
      case False
      have "a \<notin> set (deleted (record_op m op tr))"
        using Cons.prems Remove by (auto simp: set_deleted_cascade)
      then show ?thesis
        using Cons.IH [of "record_op m op tr"] Cons.prems Remove False by auto
    qed
  qed
qed

lemma added_ids_take: "set (added_ids (take k ops)) \<subseteq> set (added_ids ops)"
proof (induction ops arbitrary: k)
  case Nil
  then show ?case by simp
next
  case (Cons op ops)
  then show ?case by (cases k; cases op) auto
qed

lemma removed_ids_take: "set (removed_ids (take k ops)) \<subseteq> set (removed_ids ops)"
proof (induction ops arbitrary: k)
  case Nil
  then show ?case by simp
next
  case (Cons op ops)
  then show ?case by (cases k; cases op) auto
qed

lemma pairwise_disjoint_fold:
  assumes "set (added_ids ops) \<inter> set (removed_ids ops) = {}"
    and "(\<Union>c \<in> set (removed_ids ops). set (partners m c)) \<inter>
           (set (added_ids ops) \<union> set (removed_ids ops)) = {}"
  shows "pairwise_disjoint (fold (record_op m) ops empty_transaction)"
proof -
  let ?tr = "fold (record_op m) ops empty_transaction"
  have a: "set (added ?tr) = set (added_ids ops)"
    by (simp add: set_added_fold_record_op empty_transaction_def)
  have d: "set (deleted ?tr) = set (removed_ids ops)"
    by (simp add: set_deleted_fold_record_op empty_transaction_def)
  have "set (dirty ?tr) \<subseteq>
      set (dirty empty_transaction) \<union> (\<Union>c \<in> set (removed_ids ops). set (partners m c))"
    by (rule set_dirty_fold_record_op)
  then have p: "set (dirty ?tr) \<subseteq> (\<Union>c \<in> set (removed_ids ops). set (partners m c))"
    by (simp add: empty_transaction_def)
  show ?thesis
    unfolding pairwise_disjoint_def a d using assms p by blast
qed

subsection \<open>Bodies under the contract\<close>

lemma perform_contract:
  "state w = State_transaction tr \<Longrightarrow>
   perform contract ops w =
     (Inr (), w\<lparr> state := State_transaction (fold (record_op (curve2info (ext w))) ops tr),
                 calls := calls w @ cascade_calls ops \<rparr>)"
proof (induction ops arbitrary: w tr)
  case Nil
  then show ?case by (simp add: ret_def)
next
  case (Cons op ops)
  show ?case
  proof (cases op)
    case (Add curve)
    let ?w1 = "w\<lparr> state := State_transaction (record_op (curve2info (ext w)) op tr) \<rparr>"
    have step: "addCurve contract curve w = (Inr (), ?w1)"
      using Cons.prems Add by (simp add: addCurve_def)
    have "perform contract ops ?w1 =
      (Inr (), ?w1\<lparr> state := State_transaction
           (fold (record_op (curve2info (ext ?w1))) ops (record_op (curve2info (ext w)) op tr)),
         calls := calls ?w1 @ cascade_calls ops \<rparr>)"
      by (rule Cons.IH) simp
    then show ?thesis
      using step Add by (simp add: andThen_def)
  next
    case (Remove curve)
    let ?w1 = "w\<lparr> state := State_transaction (record_op (curve2info (ext w)) op tr),
                    calls := calls w @ [Curves_cascade curve] \<rparr>"
    have step: "removeCurve contract curve w = (Inr (), ?w1)"
      using Cons.prems Remove by (simp add: removeCurve_def contract_def)
    have "perform contract ops ?w1 =
      (Inr (), ?w1\<lparr> state := State_transaction
           (fold (record_op (curve2info (ext ?w1))) ops (record_op (curve2info (ext w)) op tr)),
         calls := calls ?w1 @ cascade_calls ops \<rparr>)"
      by (rule Cons.IH) simp
    then show ?thesis
      using step Remove by (simp add: andThen_def)
  qed
qed

text \<open>A body made of such calls leaves the manager in a transaction, whatever the collaborators.\<close>

lemma addCurve_keeps_transaction:
  "state w = State_transaction tr \<Longrightarrow> \<exists>tr'. state (snd (addCurve C curve w)) = State_transaction tr'"
  by (simp add: addCurve_def)

lemma removeCurve_keeps_transaction:
  "state w = State_transaction tr \<Longrightarrow> \<exists>tr'. state (snd (removeCurve C curve w)) = State_transaction tr'"
  by (simp add: removeCurve_def split: prod.splits)

lemma perform_keeps_transaction:
  "state w = State_transaction tr \<Longrightarrow> \<exists>tr'. state (snd (perform C ops w)) = State_transaction tr'"
proof (induction ops arbitrary: w tr)
  case Nil
  then show ?case by (simp add: ret_def)
next
  case (Cons op ops)
  show ?case
  proof (cases op)
    case (Add curve)
    obtain r w1 where step: "addCurve C curve w = (r, w1)"
      by (cases "addCurve C curve w")
    obtain tr1 where "state w1 = State_transaction tr1"
      using addCurve_keeps_transaction [OF Cons.prems, of C curve] step by auto
    then show ?thesis
      using Cons.IH [of w1 tr1] step Add by (cases r) (simp_all add: andThen_def)
  next
    case (Remove curve)
    obtain r w1 where step: "removeCurve C curve w = (r, w1)"
      by (cases "removeCurve C curve w")
    obtain tr1 where "state w1 = State_transaction tr1"
      using removeCurve_keeps_transaction [OF Cons.prems, of C curve] step by auto
    then show ?thesis
      using Cons.IH [of w1 tr1] step Remove by (cases r) (simp_all add: andThen_def)
  qed
qed

subsection \<open>The affected planes and the rebuild loop\<close>

lemma placementsAffectedByTransaction_distinct:
  "placementsAffectedByTransaction look cs ps = Inr ps' \<Longrightarrow> distinct ps \<Longrightarrow> distinct ps'"
  by (induction cs arbitrary: ps)
     (auto simp: distinct_set_add split: sum.splits option.splits)




text \<open>The guard of line 177: a lookup that gives \<^verbatim>\<open>undefined\<close> adds no plane.\<close>

lemma placementsAffectedByTransaction_unknown:
  "\<forall>c \<in> set cs. look c = Inr None \<Longrightarrow> placementsAffectedByTransaction look cs ps = Inr ps"
  by (induction cs arbitrary: ps) auto

lemma updatePlacements_calls:
  "\<exists>k. calls (snd (updatePlacements C ps w)) = calls w @ map Regions_updatePlacement (take k ps)"
proof (induction ps arbitrary: w)
  case Nil
  then show ?case by (simp add: ret_def)
next
  case (Cons p ps)
  obtain r x' where call: "regions_updatePlacement C p (ext w) = (r, x')"
    by (cases "regions_updatePlacement C p (ext w)")
  let ?w1 = "w\<lparr> ext := x', calls := calls w @ [Regions_updatePlacement p] \<rparr>"
  show ?case
  proof (cases r)
    case (Inl e)
    then have "calls (snd (updatePlacements C (p # ps) w))
        = calls w @ map Regions_updatePlacement (take 1 (p # ps))"
      using call by (simp add: andThen_def invoke_def)
    then show ?thesis by blast
  next
    case (Inr u)
    then have eq: "updatePlacements C (p # ps) w = updatePlacements C ps ?w1"
      using call by (simp add: andThen_def invoke_def)
    obtain k where "calls (snd (updatePlacements C ps ?w1))
        = calls ?w1 @ map Regions_updatePlacement (take k ps)"
      using Cons.IH [of ?w1] by blast
    then have "calls (snd (updatePlacements C (p # ps) w))
        = calls w @ map Regions_updatePlacement (take (Suc k) (p # ps))"
      using eq by simp
    then show ?thesis by blast
  qed
qed

subsection \<open>The transaction after its body\<close>

lemma transaction_body_returns:
  "state w = State_none \<Longrightarrow>
   f (w\<lparr> state := State_transaction empty_transaction \<rparr>) = (Inr v, w2) \<Longrightarrow>
   transaction C f w =
     (fst (after_body C (the_transaction (state w2)) w2),
      (snd (after_body C (the_transaction (state w2)) w2))\<lparr> state := State_none \<rparr>)"
  by (simp add: transaction_def andThen_def split: prod.splits)

lemma after_body_calls:
  "\<exists>ps. distinct ps \<and>
        (ps \<noteq> [] \<longrightarrow> fst (curves_commit C tr (ext w)) = Inr ()) \<and>
        (calls (snd (after_body C tr w)) = calls w \<or>
         calls (snd (after_body C tr w)) =
           calls w @ Curves_commit tr # map Regions_updatePlacement ps)"
proof -
  let ?look = "\<lambda>c. curves_lookup C c (ext w)"
  show ?thesis
  proof (cases "placementsAffectedByTransaction ?look (dirty tr) []")
    case (Inl e)
    then have "calls (snd (after_body C tr w)) = calls w"
      by (simp add: after_body_def andThen_def placementsAffected_def)
    then show ?thesis by (intro exI [of _ "[]"]) simp
  next
    case ps1: (Inr ps1)
    have d1: "distinct ps1"
      using placementsAffectedByTransaction_distinct [OF ps1] by simp
    show ?thesis
    proof (cases "placementsAffectedByTransaction ?look (deleted tr) ps1")
      case (Inl e)
      then have "calls (snd (after_body C tr w)) = calls w"
        using ps1 by (simp add: after_body_def andThen_def placementsAffected_def)
      then show ?thesis by (intro exI [of _ "[]"]) simp
    next
      case ps2: (Inr ps2)
      have d2: "distinct ps2"
        using placementsAffectedByTransaction_distinct [OF ps2 d1] .
      obtain r x' where com: "curves_commit C tr (ext w) = (r, x')"
        by (cases "curves_commit C tr (ext w)")
      let ?w1 = "w\<lparr> ext := x', calls := calls w @ [Curves_commit tr] \<rparr>"
      show ?thesis
      proof (cases r)
        case (Inl e)
        then have "calls (snd (after_body C tr w))
            = calls w @ Curves_commit tr # map Regions_updatePlacement []"
          using ps1 ps2 com
          by (simp add: after_body_def andThen_def placementsAffected_def invoke_def)
        then show ?thesis by (intro exI [of _ "[]"]) simp
      next
        case ok: (Inr u)
        show ?thesis
        proof (cases "placementsAffectedByTransaction (\<lambda>c. curves_lookup C c x') (added tr) ps2")
          case (Inl e)
          then have "calls (snd (after_body C tr w))
              = calls w @ Curves_commit tr # map Regions_updatePlacement []"
            using ps1 ps2 com ok
            by (simp add: after_body_def andThen_def placementsAffected_def invoke_def)
          then show ?thesis by (intro exI [of _ "[]"]) simp
        next
          case ps3: (Inr ps3)
          have d3: "distinct ps3"
            using placementsAffectedByTransaction_distinct [OF ps3 d2] .
          obtain k where k: "calls (snd (updatePlacements C ps3 ?w1))
              = calls ?w1 @ map Regions_updatePlacement (take k ps3)"
            using updatePlacements_calls [of C ps3 ?w1] by blast
          have "calls (snd (after_body C tr w))
                  = calls w @ Curves_commit tr # map Regions_updatePlacement []
              \<or> calls (snd (after_body C tr w))
                  = calls w @ Curves_commit tr # map Regions_updatePlacement (take k ps3)"
            using ps1 ps2 com ok ps3 k
            by (simp add: after_body_def andThen_def placementsAffected_def invoke_def ret_def)
          moreover have "distinct (take k ps3)"
            using d3 by (rule distinct_take)
          moreover have "fst (curves_commit C tr (ext w)) = Inr ()"
            using com ok by simp
          ultimately show ?thesis
            by (elim disjE; intro exI [of _ "[]"] exI [of _ "take k ps3"]; simp)
        qed
      qed
    qed
  qed
qed

subsection \<open>The calls started by unhideAll\<close>

lemma andThen_ret: "andThen m ret = m"
  by (rule ext) (simp add: andThen_def ret_def split: prod.splits sum.splits)

lemma addCurve_start_each_idle:
  assumes "obliging C"
  shows "state w = State_none \<Longrightarrow>
    \<exists>w'. addCurve_start_each C items w =
            (map (\<lambda>curve. (curve, Inr ())) (filter instanceof_SpaceInstance items), w') \<and>
          state w' = State_none \<and>
          calls w' = calls w @ map Curves_add (filter instanceof_SpaceInstance items) \<and>
          (\<forall>c. known C (ext w) c \<longrightarrow> known C (ext w') c) \<and>
          (\<forall>curve \<in> set (filter instanceof_SpaceInstance items). known C (ext w') (simpleName curve))"
proof (induction items arbitrary: w)
  case Nil
  then show ?case by simp
next
  case (Cons item items)
  show ?case
  proof (cases "instanceof_SpaceInstance item")
    case False
    then show ?thesis using Cons.IH [OF Cons.prems] by simp
  next
    case True
    obtain x' where add: "curves_add C item (ext w) = (Inr (), x')"
      and new: "known C x' (simpleName item)"
      and keep: "\<forall>c. known C (ext w) c \<longrightarrow> known C x' c"
      using assms unfolding obliging_def by blast
    let ?w1 = "w\<lparr> ext := x', calls := calls w @ [Curves_add item] \<rparr>"
    have step: "invoke (Curves_add item) (curves_add C item) w = (Inr (), ?w1)"
      using add by (simp add: invoke_def)
    have "state ?w1 = State_none" using Cons.prems by simp
    then obtain w' where ih:
      "addCurve_start_each C items ?w1 =
         (map (\<lambda>curve. (curve, Inr ())) (filter instanceof_SpaceInstance items), w')"
      "state w' = State_none"
      "calls w' = calls ?w1 @ map Curves_add (filter instanceof_SpaceInstance items)"
      "\<forall>c. known C (ext ?w1) c \<longrightarrow> known C (ext w') c"
      "\<forall>curve \<in> set (filter instanceof_SpaceInstance items). known C (ext w') (simpleName curve)"
      using Cons.IH [of ?w1] by blast
    have "addCurve_start_each C (item # items) w =
        (map (\<lambda>curve. (curve, Inr ())) (filter instanceof_SpaceInstance (item # items)), w')"
      using True Cons.prems step ih(1) by simp
    moreover have "calls w' = calls w @ map Curves_add (filter instanceof_SpaceInstance (item # items))"
      using True ih(3) by simp
    moreover have "\<forall>c. known C (ext w) c \<longrightarrow> known C (ext w') c"
      using keep ih(4) by simp
    moreover have "\<forall>curve \<in> set (filter instanceof_SpaceInstance (item # items)).
        known C (ext w') (simpleName curve)"
      using True new ih(4) ih(5) by simp
    ultimately show ?thesis using ih(2) by blast
  qed
qed

lemma addCurve_resume_each_idle:
  assumes "obliging C"
  shows "\<forall>curve \<in> set curves. known C (ext w) (simpleName curve) \<Longrightarrow>
    \<exists>ps w'. length ps = length curves \<and>
       addCurve_resume_each C (map (\<lambda>curve. (curve, Inr ())) curves) w = (([], []), w') \<and>
       state w' = state w \<and>
       calls w' = calls w @ map Regions_updatePlacement ps"
proof (induction curves arbitrary: w)
  case Nil
  then show ?case by simp
next
  case (Cons curve curves)
  obtain info where info: "curves_lookup C (simpleName curve) (ext w) = Inr (Some info)"
    using Cons.prems unfolding known_def by auto
  obtain x' where upd: "regions_updatePlacement C (placement info) (ext w) = (Inr (), x')"
    and keep: "\<forall>c. known C (ext w) c \<longrightarrow> known C x' c"
    using assms unfolding obliging_def by blast
  let ?w1 = "w\<lparr> ext := x', calls := calls w @ [Regions_updatePlacement (placement info)] \<rparr>"
  have step: "invoke (Regions_updatePlacement (placement info))
      (regions_updatePlacement C (placement info)) w = (Inr (), ?w1)"
    using upd by (simp add: invoke_def)
  have "\<forall>c \<in> set curves. known C (ext ?w1) (simpleName c)"
    using Cons.prems keep by simp
  then obtain ps w' where ih:
    "length ps = length curves"
    "addCurve_resume_each C (map (\<lambda>curve. (curve, Inr ())) curves) ?w1 = (([], []), w')"
    "state w' = state ?w1"
    "calls w' = calls ?w1 @ map Regions_updatePlacement ps"
    using Cons.IH [of ?w1] by blast
  have "length (placement info # ps) = length (curve # curves)"
    using ih(1) by simp
  moreover have "addCurve_resume_each C (map (\<lambda>curve. (curve, Inr ())) (curve # curves)) w
      = (([], []), w')"
    using info step ih(2) by simp
  moreover have "state w' = state w"
    using ih(3) by simp
  moreover have "calls w' = calls w @ map Regions_updatePlacement (placement info # ps)"
    using ih(4) by simp
  ultimately show ?case by blast
qed

text \<open>Started and resumed for one curve, the pieces are \<^verbatim>\<open>addCurve\<close> itself.\<close>

lemma addCurve_in_pieces:
  "(case addCurve_start_each C [SpaceInstance n] w of
      (suspended, w1) \<Rightarrow>
        (case addCurve_resume_each C suspended w1 of
           (errors, w2) \<Rightarrow> (settle errors (), w2)))
   = addCurve C (SpaceInstance n) w"
proof (cases "state w")
  case State_none
  obtain r x' where add: "curves_add C (SpaceInstance n) (ext w) = (r, x')"
    by (cases "curves_add C (SpaceInstance n) (ext w)")
  let ?w1 = "w\<lparr> ext := x', calls := calls w @ [Curves_add (SpaceInstance n)] \<rparr>"
  show ?thesis
  proof (cases r)
    case (Inl e)
    then show ?thesis
      using State_none add
      by (simp add: addCurve_def andThen_def invoke_def settle_def)
  next
    case (Inr u)
    show ?thesis
    proof (cases "curves_lookup C n x'")
      case (Inl e)
      then show ?thesis
        using State_none add Inr
        by (simp add: addCurve_def andThen_def invoke_def lookup_def settle_def)
    next
      case found: (Inr v)
      show ?thesis
      proof (cases v)
        case None
        then show ?thesis
          using State_none add Inr found
          by (simp add: addCurve_def andThen_def invoke_def lookup_def settle_def throw_def)
      next
        case (Some info)
        obtain r' x'' where upd: "regions_updatePlacement C (placement info) x' = (r', x'')"
          by (cases "regions_updatePlacement C (placement info) x'")
        show ?thesis
          using State_none add Inr found Some upd
          by (cases r') (simp_all add: addCurve_def andThen_def invoke_def lookup_def settle_def)
      qed
    qed
  qed
next
  case (State_transaction tr)
  then show ?thesis
    by (simp add: addCurve_def settle_def)
qed

lemma obliging_contract: "obliging contract"
  unfolding obliging_def known_def
  by (auto simp: contract_def register_def split: option.splits)

subsection \<open>The first removal dirties a curve\<close>

lemma deleted_record_op_Add: "deleted (record_op m (Add curve) tr) = deleted tr"
  by simp

lemma dirty_fold_record_op_nonempty:
  "removed_ids ops \<noteq> [] \<Longrightarrow>
   \<forall>r \<in> set (removed_ids ops). \<exists>p \<in> set (partners m r). p \<noteq> r \<Longrightarrow>
   deleted tr = [] \<Longrightarrow>
   dirty (fold (record_op m) ops tr) \<noteq> []"
proof (induction ops arbitrary: tr)
  case Nil
  then show ?case by simp
next
  case (Cons op ops)
  show ?case
  proof (cases op)
    case (Add curve)
    then show ?thesis
      using Cons.IH [of "record_op m op tr"] Cons.prems by simp
  next
    case (Remove curve)
    obtain p where p: "p \<in> set (partners m (simpleName curve))" "p \<noteq> simpleName curve"
      using Cons.prems(2) Remove by auto
    have "p \<in> set (dirty (record_op m op tr))"
      using p Cons.prems(3) Remove by (simp add: set_dirty_cascade)
    then have "p \<in> set (dirty (fold (record_op m) ops (record_op m op tr)))"
      using dirty_fold_record_op_mono [of "record_op m op tr" m ops] by auto
    then show ?thesis by auto
  qed
qed


section \<open>Cascade and deletion precedence\<close>

text \<open>
  C1, as stated, fails. On the chain of curves 1, 2 and 3 a transaction that removes all
  three hands \<^verbatim>\<open>commit\<close> the dirty set \<open>[2, 3]\<close>, which is not empty: the cascade puts
  a curve into \<open>dirty\<close> before the curve is removed itself, and nothing takes it out
  again. On the chain of curves 0, 1, 2 and 3, where 1 and 2 are jointed and 2 and 3 are
  jointed, removing 1, 2 and 3 leaves curve 0 dirty and not deleted, so there not even
  the dirty curves outside \<open>deleted\<close> are none.
\<close>

theorem cascade_completeness_counterexample:
  "jointed (curve2info (ext chain_world)) 1 2 \<and>
   jointed (curve2info (ext chain_world)) 2 3 \<and>
   calls (snd (transaction contract (perform contract remove_1_2_3) chain_world)) =
     [Curves_cascade (SpaceInstance 1), Curves_cascade (SpaceInstance 2),
      Curves_cascade (SpaceInstance 3),
      Curves_commit \<lparr> dirty = [2, 3], added = [], deleted = [1, 2, 3] \<rparr>,
      Regions_updatePlacement 7] \<and>
   dirty \<lparr> dirty = [2, 3], added = [], deleted = [1, 2, 3] \<rparr> \<noteq> [] \<and>
   jointed (curve2info (ext long_world)) 1 2 \<and>
   jointed (curve2info (ext long_world)) 2 3 \<and>
   calls (snd (transaction contract (perform contract remove_1_2_3) long_world)) =
     [Curves_cascade (SpaceInstance 1), Curves_cascade (SpaceInstance 2),
      Curves_cascade (SpaceInstance 3),
      Curves_commit \<lparr> dirty = [0, 2, 3], added = [], deleted = [1, 2, 3] \<rparr>,
      Regions_updatePlacement 7] \<and>
   resolved_dirty \<lparr> dirty = [0, 2, 3], added = [], deleted = [1, 2, 3] \<rparr> = [0]"
  by (simp add: jointed_def resolved_dirty_def example_defs manager_defs contract_defs)

text \<open>
  C1, amended. Curves \<open>a\<close> and \<open>b\<close> are jointed, and so are \<open>b\<close> and \<open>c\<close>. The body of a
  transaction that removes curves returns, and the transaction goes on to its commit
  phase with the sets that the body accumulated. When the body removes \<open>b\<close> and \<open>c\<close>,
  \<open>a\<close> is in \<open>dirty\<close> and not in \<open>deleted\<close>. When the body removes \<open>a\<close>, \<open>b\<close> and \<open>c\<close>,
  \<open>deleted\<close> holds the three curves and \<open>dirty\<close> is not empty; if the three curves have
  no joint with a fourth curve, every curve of \<open>dirty\<close> is also in \<open>deleted\<close>, so that
  no curve remains dirty once deletion takes precedence. The cascade is the one of the
  specification.
\<close>

theorem cascade_completeness:
  assumes idle: "state w = State_none"
    and conf: "jointed (curve2info (ext w)) a b" "jointed (curve2info (ext w)) b c"
      "distinct [a, b, c]"
  shows "\<exists>tr w2.
      perform contract ops (w\<lparr> state := State_transaction empty_transaction \<rparr>) = (Inr (), w2) \<and>
      state w2 = State_transaction tr \<and>
      transaction contract (perform contract ops) w =
        (fst (after_body contract tr w2), (snd (after_body contract tr w2))\<lparr> state := State_none \<rparr>) \<and>
      (set (removed_ids ops) = {b, c} \<longrightarrow>
         a \<in> set (dirty tr) \<and> a \<notin> set (deleted tr) \<and> a \<in> set (resolved_dirty tr)) \<and>
      (set (removed_ids ops) = {a, b, c} \<longrightarrow>
         set (deleted tr) = {a, b, c} \<and> dirty tr \<noteq> [] \<and>
         ((\<forall>x \<in> {a, b, c}. set (partners (curve2info (ext w)) x) \<subseteq> {a, b, c}) \<longrightarrow>
            set (dirty tr) \<subseteq> set (deleted tr) \<and> resolved_dirty tr = []))"
proof -
  let ?m = "curve2info (ext w)"
  let ?w1 = "w\<lparr> state := State_transaction empty_transaction \<rparr>"
  let ?tr = "fold (record_op ?m) ops empty_transaction"
  let ?w2 = "?w1\<lparr> state := State_transaction ?tr, calls := calls ?w1 @ cascade_calls ops \<rparr>"
  have body: "perform contract ops ?w1 = (Inr (), ?w2)"
    using perform_contract [of ?w1 empty_transaction ops] by simp
  have st: "state ?w2 = State_transaction ?tr"
    by simp
  have tx: "transaction contract (perform contract ops) w =
      (fst (after_body contract ?tr ?w2), (snd (after_body contract ?tr ?w2))\<lparr> state := State_none \<rparr>)"
    using transaction_body_returns [of w "perform contract ops" "()" ?w2 contract] idle body
    by simp
  have del: "set (deleted ?tr) = set (removed_ids ops)"
    by (simp add: set_deleted_fold_record_op empty_transaction_def)
  have first: "a \<in> set (dirty ?tr) \<and> a \<notin> set (deleted ?tr) \<and> a \<in> set (resolved_dirty ?tr)"
    if rs: "set (removed_ids ops) = {b, c}"
  proof -
    have "b \<in> set (removed_ids ops)" "a \<in> set (partners ?m b)" "a \<notin> set (removed_ids ops)"
      using rs conf by (auto simp: jointed_def)
    then have "a \<in> set (dirty ?tr)"
      by (intro dirty_fold_record_op_member [of b]) (simp_all add: empty_transaction_def)
    moreover have "a \<notin> set (deleted ?tr)"
      using del rs conf by auto
    ultimately show ?thesis by (simp add: resolved_dirty_def)
  qed
  have all_three: "set (deleted ?tr) = {a, b, c} \<and> dirty ?tr \<noteq> []"
    if rs: "set (removed_ids ops) = {a, b, c}"
  proof -
    have "removed_ids ops \<noteq> []"
      using rs by auto
    moreover have "\<forall>r \<in> set (removed_ids ops). \<exists>p \<in> set (partners ?m r). p \<noteq> r"
      using rs conf by (auto simp: jointed_def)
    ultimately have "dirty ?tr \<noteq> []"
      by (intro dirty_fold_record_op_nonempty) (simp_all add: empty_transaction_def)
    then show ?thesis using del rs by simp
  qed
  have precedence: "set (dirty ?tr) \<subseteq> set (deleted ?tr) \<and> resolved_dirty ?tr = []"
    if rs: "set (removed_ids ops) = {a, b, c}"
      and closed: "\<forall>x \<in> {a, b, c}. set (partners ?m x) \<subseteq> {a, b, c}"
  proof -
    have "set (dirty ?tr) \<subseteq>
        set (dirty empty_transaction) \<union> (\<Union>x \<in> set (removed_ids ops). set (partners ?m x))"
      by (rule set_dirty_fold_record_op)
    also have "\<dots> \<subseteq> {a, b, c}"
      using closed rs by (auto simp: empty_transaction_def)
    finally have sub: "set (dirty ?tr) \<subseteq> set (deleted ?tr)"
      using del rs by simp
    then have "resolved_dirty ?tr = []"
      by (auto simp: resolved_dirty_def filter_empty_conv)
    with sub show ?thesis by simp
  qed
  show ?thesis
    using body st tx first all_three precedence by blast
qed

text \<open>
  The chain of curves 1, 2 and 3. Removing 2 and 3 leaves \<open>dirty = [1, 3]\<close> and
  \<open>deleted = [2, 3]\<close>; removing all three leaves \<open>dirty = [2, 3]\<close> and
  \<open>deleted = [1, 2, 3]\<close>.
\<close>

theorem cascade_completeness_witness:
  "state chain_world = State_none \<and>
   jointed (curve2info (ext chain_world)) 1 2 \<and>
   jointed (curve2info (ext chain_world)) 2 3 \<and>
   set (removed_ids remove_2_3) = {2, 3} \<and>
   set (removed_ids remove_1_2_3) = {1, 2, 3} \<and>
   set (partners (curve2info (ext chain_world)) 1) = {2} \<and>
   set (partners (curve2info (ext chain_world)) 2) = {1, 3} \<and>
   set (partners (curve2info (ext chain_world)) 3) = {2} \<and>
   (\<exists>tr w2.
      perform contract remove_2_3 (chain_world\<lparr> state := State_transaction empty_transaction \<rparr>)
        = (Inr (), w2) \<and>
      state w2 = State_transaction tr \<and>
      transaction contract (perform contract remove_2_3) chain_world =
        (fst (after_body contract tr w2), (snd (after_body contract tr w2))\<lparr> state := State_none \<rparr>) \<and>
      1 \<in> set (dirty tr) \<and> 1 \<notin> set (deleted tr) \<and> 1 \<in> set (resolved_dirty tr)) \<and>
   (\<exists>tr w2.
      perform contract remove_1_2_3 (chain_world\<lparr> state := State_transaction empty_transaction \<rparr>)
        = (Inr (), w2) \<and>
      state w2 = State_transaction tr \<and>
      transaction contract (perform contract remove_1_2_3) chain_world =
        (fst (after_body contract tr w2), (snd (after_body contract tr w2))\<lparr> state := State_none \<rparr>) \<and>
      set (deleted tr) = {1, 2, 3} \<and> dirty tr \<noteq> [] \<and>
      set (dirty tr) \<subseteq> set (deleted tr) \<and> resolved_dirty tr = []) \<and>
   calls (snd (transaction contract (perform contract remove_2_3) chain_world)) =
     [Curves_cascade (SpaceInstance 2), Curves_cascade (SpaceInstance 3),
      Curves_commit \<lparr> dirty = [1, 3], added = [], deleted = [2, 3] \<rparr>,
      Regions_updatePlacement 7]"
proof -
  have idle: "state chain_world = State_none"
    by (simp add: chain_world_def)
  have j12: "jointed (curve2info (ext chain_world)) 1 2"
    by (simp add: jointed_def example_defs contract_defs)
  have j23: "jointed (curve2info (ext chain_world)) 2 3"
    by (simp add: jointed_def example_defs contract_defs)
  have d: "distinct [1::nat, 2, 3]"
    by simp
  have r1: "set (removed_ids remove_2_3) = {2, 3}"
    by (simp add: remove_2_3_def)
  have r2: "set (removed_ids remove_1_2_3) = {1, 2, 3}"
    by (simp add: remove_1_2_3_def)
  have closed: "\<forall>x \<in> {1, 2, 3}. set (partners (curve2info (ext chain_world)) x) \<subseteq> {1, 2, 3}"
    by (auto simp: example_defs contract_defs)
  have one: "\<exists>tr w2.
      perform contract remove_2_3 (chain_world\<lparr> state := State_transaction empty_transaction \<rparr>)
        = (Inr (), w2) \<and>
      state w2 = State_transaction tr \<and>
      transaction contract (perform contract remove_2_3) chain_world =
        (fst (after_body contract tr w2), (snd (after_body contract tr w2))\<lparr> state := State_none \<rparr>) \<and>
      1 \<in> set (dirty tr) \<and> 1 \<notin> set (deleted tr) \<and> 1 \<in> set (resolved_dirty tr)"
    using cascade_completeness [where ops = remove_2_3, OF idle j12 j23 d] r1 by blast
  have two: "\<exists>tr w2.
      perform contract remove_1_2_3 (chain_world\<lparr> state := State_transaction empty_transaction \<rparr>)
        = (Inr (), w2) \<and>
      state w2 = State_transaction tr \<and>
      transaction contract (perform contract remove_1_2_3) chain_world =
        (fst (after_body contract tr w2), (snd (after_body contract tr w2))\<lparr> state := State_none \<rparr>) \<and>
      set (deleted tr) = {1, 2, 3} \<and> dirty tr \<noteq> [] \<and>
      set (dirty tr) \<subseteq> set (deleted tr) \<and> resolved_dirty tr = []"
    using cascade_completeness [where ops = remove_1_2_3, OF idle j12 j23 d] r2 closed by blast
  have run: "calls (snd (transaction contract (perform contract remove_2_3) chain_world)) =
     [Curves_cascade (SpaceInstance 2), Curves_cascade (SpaceInstance 3),
      Curves_commit \<lparr> dirty = [1, 3], added = [], deleted = [2, 3] \<rparr>,
      Regions_updatePlacement 7]"
    by (simp add: example_defs manager_defs contract_defs)
  have joints: "set (partners (curve2info (ext chain_world)) 1) = {2}"
    "set (partners (curve2info (ext chain_world)) 2) = {1, 3}"
    "set (partners (curve2info (ext chain_world)) 3) = {2}"
    by (simp_all add: example_defs contract_defs)
  show ?thesis
    using idle j12 j23 r1 r2 joints one two run by blast
qed

section \<open>Failure of a transaction\<close>

text \<open>
  C2. Transaction failure semantics. Started in the idle state, a transaction whose body
  throws returns the body's error and leaves the world as the body left it, with the state
  back to \<^verbatim>\<open>none\<close>: the manager calls neither \<^verbatim>\<open>commit\<close> nor \<^verbatim>\<open>updatePlacement\<close> and the
  accumulated transaction is gone with the state. Whatever happens, also when \<^verbatim>\<open>commit\<close>
  or a rebuild throws after the body, the state is \<^verbatim>\<open>none\<close> when the transaction returns.
\<close>

theorem transaction_failure_semantics:
  "state w = State_none \<Longrightarrow>
     (\<forall>e w2. f (w\<lparr> state := State_transaction empty_transaction \<rparr>) = (Inl e, w2) \<longrightarrow>
        transaction C f w = (Inl e, w2\<lparr> state := State_none \<rparr>)) \<and>
     state (snd (transaction C f w)) = State_none"
proof -
  assume idle: "state w = State_none"
  let ?w1 = "w\<lparr> state := State_transaction empty_transaction \<rparr>"
  let ?block = "andThen f (\<lambda>_ w2. after_body C (the_transaction (state w2)) w2)"
  have finally_block: "transaction C f w = (fst (?block ?w1), (snd (?block ?w1))\<lparr> state := State_none \<rparr>)"
    using idle by (simp add: transaction_def split: prod.splits)
  have throws: "transaction C f w = (Inl e, w2\<lparr> state := State_none \<rparr>)"
    if "f ?w1 = (Inl e, w2)" for e w2
  proof -
    have "?block ?w1 = (Inl e, w2)"
      using that by (simp add: andThen_def)
    then show ?thesis
      using finally_block by simp
  qed
  have "state (snd (transaction C f w)) = State_none"
    using finally_block by simp
  with throws show ?thesis by blast
qed

text \<open>
  A body that adds curve 8, removes curve 2 and throws; and a body that adds five curves
  when \<^verbatim>\<open>commit\<close> throws, or when the rebuild throws.
\<close>

theorem transaction_failure_semantics_witness:
  "state chain_world = State_none \<and>
   fst (transaction contract failing_body chain_world) = Inl (Failure ''body'') \<and>
   calls (snd (transaction contract failing_body chain_world)) = [Curves_cascade (SpaceInstance 2)] \<and>
   ext (snd (transaction contract failing_body chain_world)) = chain_store \<and>
   state (snd (transaction contract failing_body chain_world)) = State_none \<and>
   fst (transaction commit_fails (perform commit_fails add_five) chain_world)
     = Inl (Failure ''commit'') \<and>
   state (snd (transaction commit_fails (perform commit_fails add_five) chain_world)) = State_none \<and>
   fst (transaction rebuild_fails (perform rebuild_fails add_five) chain_world)
     = Inl (Failure ''rebuild'') \<and>
   state (snd (transaction rebuild_fails (perform rebuild_fails add_five) chain_world)) = State_none"
proof -
  let ?w2 = "chain_world\<lparr> state := State_transaction \<lparr> dirty = [1, 3], added = [8], deleted = [2] \<rparr>,
                          calls := [Curves_cascade (SpaceInstance 2)] \<rparr>"
  have idle: "state chain_world = State_none"
    by (simp add: chain_world_def)
  have body: "failing_body (chain_world\<lparr> state := State_transaction empty_transaction \<rparr>)
      = (Inl (Failure ''body''), ?w2)"
    by (simp add: failing_body_def example_defs manager_defs contract_defs)
  have "transaction contract failing_body chain_world
      = (Inl (Failure ''body''), ?w2\<lparr> state := State_none \<rparr>)"
    using transaction_failure_semantics [OF idle, of failing_body contract] body by blast
  then have one:
    "fst (transaction contract failing_body chain_world) = Inl (Failure ''body'')"
    "calls (snd (transaction contract failing_body chain_world)) = [Curves_cascade (SpaceInstance 2)]"
    "ext (snd (transaction contract failing_body chain_world)) = chain_store"
    "state (snd (transaction contract failing_body chain_world)) = State_none"
    by (simp_all add: chain_world_def)
  have two: "state (snd (transaction commit_fails (perform commit_fails add_five) chain_world))
      = State_none"
    using transaction_failure_semantics [OF idle, of "perform commit_fails add_five" commit_fails]
    by blast
  have three: "state (snd (transaction rebuild_fails (perform rebuild_fails add_five) chain_world))
      = State_none"
    using transaction_failure_semantics [OF idle, of "perform rebuild_fails add_five" rebuild_fails]
    by blast
  have four: "fst (transaction commit_fails (perform commit_fails add_five) chain_world)
      = Inl (Failure ''commit'')"
    by (simp add: commit_fails_def example_defs manager_defs contract_defs)
  have five: "fst (transaction rebuild_fails (perform rebuild_fails add_five) chain_world)
      = Inl (Failure ''rebuild'')"
    by (simp add: rebuild_fails_def example_defs manager_defs contract_defs)
  show ?thesis
    using idle one two three four five by simp
qed

section \<open>One rebuild for each plane, after the commit\<close>

text \<open>
  C3. Single rebuild per affected plane, only after commit. When the body of a
  transaction returns, the calls that the manager makes afterwards are none at all (a
  lookup threw before the commit), or the \<^verbatim>\<open>commit\<close> of the accumulated transaction
  followed by \<^verbatim>\<open>updatePlacement\<close> calls for planes that are all different; and there is
  a rebuild call only if \<^verbatim>\<open>commit\<close> returned. A plane is the identity of its
  \<^verbatim>\<open>Placement3D\<close> object, as in the \<^verbatim>\<open>Set\<close> of the source.
\<close>

theorem single_rebuild_after_commit:
  "state w = State_none \<Longrightarrow>
   f (w\<lparr> state := State_transaction empty_transaction \<rparr>) = (Inr (), w2) \<Longrightarrow>
   state w2 = State_transaction tr \<Longrightarrow>
   \<exists>ps. distinct ps \<and>
        (ps \<noteq> [] \<longrightarrow> fst (curves_commit C tr (ext w2)) = Inr ()) \<and>
        (calls (snd (transaction C f w)) = calls w2 \<or>
         calls (snd (transaction C f w)) =
           calls w2 @ Curves_commit tr # map Regions_updatePlacement ps)"
  using after_body_calls [of C tr w2]
  by (simp add: transaction_body_returns)

text \<open>Five curves added on plane 7 in one transaction: one commit, then one rebuild.\<close>

theorem single_rebuild_after_commit_witness:
  "state chain_world = State_none \<and>
   (\<exists>ps. distinct ps \<and>
        (ps \<noteq> [] \<longrightarrow>
           fst (curves_commit contract \<lparr> dirty = [], added = [11, 12, 13, 14, 15], deleted = [] \<rparr>
                  chain_store) = Inr ()) \<and>
        (calls (snd (transaction contract (perform contract add_five) chain_world)) = [] \<or>
         calls (snd (transaction contract (perform contract add_five) chain_world)) =
           [] @ Curves_commit \<lparr> dirty = [], added = [11, 12, 13, 14, 15], deleted = [] \<rparr>
                  # map Regions_updatePlacement ps)) \<and>
   calls (snd (transaction contract (perform contract add_five) chain_world)) =
     [Curves_commit \<lparr> dirty = [], added = [11, 12, 13, 14, 15], deleted = [] \<rparr>,
      Regions_updatePlacement 7]"
proof -
  let ?tr = "\<lparr> dirty = [], added = [11, 12, 13, 14, 15], deleted = [] \<rparr>"
  let ?w2 = "chain_world\<lparr> state := State_transaction ?tr \<rparr>"
  have idle: "state chain_world = State_none"
    by (simp add: chain_world_def)
  have body: "perform contract add_five (chain_world\<lparr> state := State_transaction empty_transaction \<rparr>)
      = (Inr (), ?w2)"
    by (simp add: example_defs manager_defs contract_defs)
  have st: "state ?w2 = State_transaction ?tr"
    by simp
  have "\<exists>ps. distinct ps \<and>
        (ps \<noteq> [] \<longrightarrow> fst (curves_commit contract ?tr (ext ?w2)) = Inr ()) \<and>
        (calls (snd (transaction contract (perform contract add_five) chain_world)) = calls ?w2 \<or>
         calls (snd (transaction contract (perform contract add_five) chain_world)) =
           calls ?w2 @ Curves_commit ?tr # map Regions_updatePlacement ps)"
    using single_rebuild_after_commit
      [where w = chain_world and f = "perform contract add_five" and C = contract,
        OF idle body st] .
  then have one: "\<exists>ps. distinct ps \<and>
        (ps \<noteq> [] \<longrightarrow> fst (curves_commit contract ?tr chain_store) = Inr ()) \<and>
        (calls (snd (transaction contract (perform contract add_five) chain_world)) = [] \<or>
         calls (snd (transaction contract (perform contract add_five) chain_world)) =
           [] @ Curves_commit ?tr # map Regions_updatePlacement ps)"
    by (simp add: chain_world_def)
  have run: "calls (snd (transaction contract (perform contract add_five) chain_world)) =
     [Curves_commit ?tr, Regions_updatePlacement 7]"
    by (simp add: example_defs manager_defs contract_defs)
  show ?thesis
    using idle one run by blast
qed

section \<open>Re-entrancy\<close>

text \<open>
  C4. Re-entrancy guard. Called while a transaction is active, \<^verbatim>\<open>transaction\<close> throws
  the invalid state error and leaves the world as it is, so the sets of the outer
  transaction are what they were and the inner body is not run. If the body of the outer
  transaction catches that error, the outer transaction goes on exactly as if the inner call
  had not been made; if it does not, the outer transaction returns the error, the state is
  back to \<^verbatim>\<open>none\<close> and nothing is committed.
\<close>

theorem reentrancy_guard:
  "(state w = State_transaction tr \<longrightarrow>
      transaction C g w = (Inl (InvalidState ''invalid state: transaction''), w)) \<and>
   (state w0 = State_none \<and>
    pre (w0\<lparr> state := State_transaction empty_transaction \<rparr>) = (Inr (), w1) \<and>
    state w1 = State_transaction tr1 \<longrightarrow>
      transaction C (andThen pre (\<lambda>_.
          andThen (catch (transaction C g) (\<lambda>e. ret ())) (\<lambda>_. rest))) w0
        = transaction C (andThen pre (\<lambda>_. rest)) w0 \<and>
      transaction C (andThen pre (\<lambda>_. andThen (transaction C g) (\<lambda>_. rest))) w0
        = (Inl (InvalidState ''invalid state: transaction''), w1\<lparr> state := State_none \<rparr>))"
proof -
  let ?error = "InvalidState ''invalid state: transaction''"
  have guard: "transaction C g v = (Inl ?error, v)" if "state v = State_transaction u" for v u
    using that by (simp add: transaction_def)
  have nested: "transaction C (andThen pre (\<lambda>_.
          andThen (catch (transaction C g) (\<lambda>e. ret ())) (\<lambda>_. rest))) w0
        = transaction C (andThen pre (\<lambda>_. rest)) w0 \<and>
      transaction C (andThen pre (\<lambda>_. andThen (transaction C g) (\<lambda>_. rest))) w0
        = (Inl ?error, w1\<lparr> state := State_none \<rparr>)"
    if idle: "state w0 = State_none"
      and pre: "pre (w0\<lparr> state := State_transaction empty_transaction \<rparr>) = (Inr (), w1)"
      and active: "state w1 = State_transaction tr1"
  proof -
    have inner: "transaction C g w1 = (Inl ?error, w1)"
      using guard [OF active] .
    have caught: "andThen (catch (transaction C g) (\<lambda>e. ret ())) (\<lambda>_. rest) w1 = rest w1"
      using inner by (simp add: andThen_def catch_def ret_def)
    have uncaught: "andThen (transaction C g) (\<lambda>_. rest) w1 = (Inl ?error, w1)"
      using inner by (simp add: andThen_def)
    show ?thesis
      using idle pre caught uncaught by (simp add: transaction_def andThen_def)
  qed
  show ?thesis
    using guard nested by blast
qed

text \<open>
  The body removes curves 2 and 3, starts a transaction and then adds five curves. With
  the error caught the transaction commits the removals and the additions; with the error
  uncaught only the two \<^verbatim>\<open>cascade\<close> calls of the body have been made.
\<close>

theorem reentrancy_guard_witness:
  "state chain_active = State_transaction empty_transaction \<and>
   inner chain_active = (Inl (InvalidState ''invalid state: transaction''), chain_active) \<and>
   state chain_world = State_none \<and>
   transaction contract nested_caught chain_world = transaction contract not_nested chain_world \<and>
   fst (transaction contract nested_caught chain_world) = Inr () \<and>
   calls (snd (transaction contract nested_caught chain_world)) =
     [Curves_cascade (SpaceInstance 2), Curves_cascade (SpaceInstance 3),
      Curves_commit \<lparr> dirty = [1, 3], added = [11, 12, 13, 14, 15], deleted = [2, 3] \<rparr>,
      Regions_updatePlacement 7] \<and>
   fst (transaction contract nested_uncaught chain_world)
     = Inl (InvalidState ''invalid state: transaction'') \<and>
   calls (snd (transaction contract nested_uncaught chain_world)) =
     [Curves_cascade (SpaceInstance 2), Curves_cascade (SpaceInstance 3)] \<and>
   state (snd (transaction contract nested_uncaught chain_world)) = State_none"
proof -
  let ?tr1 = "\<lparr> dirty = [1, 3], added = [], deleted = [2, 3] \<rparr>"
  let ?w1 = "chain_world\<lparr> state := State_transaction ?tr1,
               calls := [Curves_cascade (SpaceInstance 2), Curves_cascade (SpaceInstance 3)] \<rparr>"
  note guard = reentrancy_guard
    [where C = contract and g = "perform contract add_five" and w = chain_active
       and tr = empty_transaction and ?w0.0 = chain_world
       and pre = "perform contract remove_2_3" and ?w1.0 = ?w1 and ?tr1.0 = ?tr1
       and rest = "perform contract add_five"]
  have active: "state chain_active = State_transaction empty_transaction"
    by (simp add: chain_active_def)
  have idle: "state chain_world = State_none"
    by (simp add: chain_world_def)
  have pre: "perform contract remove_2_3 (chain_world\<lparr> state := State_transaction empty_transaction \<rparr>)
      = (Inr (), ?w1)"
    by (simp add: example_defs manager_defs contract_defs)
  have st: "state ?w1 = State_transaction ?tr1"
    by simp
  have one: "inner chain_active = (Inl (InvalidState ''invalid state: transaction''), chain_active)"
    using guard active by (simp add: inner_def)
  have two: "transaction contract nested_caught chain_world
      = transaction contract not_nested chain_world"
    using guard idle pre st by (simp add: nested_caught_def not_nested_def inner_def)
  have "transaction contract nested_uncaught chain_world
      = (Inl (InvalidState ''invalid state: transaction''), ?w1\<lparr> state := State_none \<rparr>)"
    using guard idle pre st by (simp add: nested_uncaught_def inner_def)
  then have three:
    "fst (transaction contract nested_uncaught chain_world)
       = Inl (InvalidState ''invalid state: transaction'')"
    "calls (snd (transaction contract nested_uncaught chain_world)) =
       [Curves_cascade (SpaceInstance 2), Curves_cascade (SpaceInstance 3)]"
    "state (snd (transaction contract nested_uncaught chain_world)) = State_none"
    by simp_all
  have four:
    "fst (transaction contract not_nested chain_world) = Inr ()"
    "calls (snd (transaction contract not_nested chain_world)) =
     [Curves_cascade (SpaceInstance 2), Curves_cascade (SpaceInstance 3),
      Curves_commit \<lparr> dirty = [1, 3], added = [11, 12, 13, 14, 15], deleted = [2, 3] \<rparr>,
      Regions_updatePlacement 7]"
    by (simp_all add: not_nested_def example_defs manager_defs contract_defs)
  show ?thesis
    using active idle one two three four by simp
qed

section \<open>Dispatch on the state\<close>

text \<open>
  C5. State dispatch of \<^verbatim>\<open>addCurve\<close> and \<^verbatim>\<open>removeCurve\<close>. In the idle state
  \<^verbatim>\<open>addCurve\<close> registers the curve (\<^verbatim>\<open>add\<close>), looks its record up and calls
  \<^verbatim>\<open>updatePlacement\<close> once, for the placement of the record; \<^verbatim>\<open>removeCurve\<close> looks the
  record up, calls \<^verbatim>\<open>remove\<close> and then \<^verbatim>\<open>updatePlacement\<close> once, for the placement the
  record had. In a transaction \<^verbatim>\<open>addCurve\<close> only adds the name of the curve to \<open>added\<close>:
  no call is made and the collaborators' state is untouched; \<^verbatim>\<open>removeCurve\<close> only calls
  \<^verbatim>\<open>cascade\<close> with the curve and the active transaction.
\<close>

theorem state_dispatch:
  "(state w = State_none \<and> curves_add C curve (ext w) = (Inr (), x1) \<and>
    curves_lookup C (simpleName curve) x1 = Inr (Some info) \<and>
    regions_updatePlacement C (placement info) x1 = (r, x2) \<longrightarrow>
      addCurve C curve w =
        (r, w\<lparr> ext := x2,
               calls := calls w @ [Curves_add curve, Regions_updatePlacement (placement info)] \<rparr>)) \<and>
   (state w = State_none \<and> curves_lookup C (simpleName curve) (ext w) = Inr (Some info) \<and>
    curves_remove C curve (ext w) = (Inr (), x1) \<and>
    regions_updatePlacement C (placement info) x1 = (r, x2) \<longrightarrow>
      removeCurve C curve w =
        (r, w\<lparr> ext := x2,
               calls := calls w @ [Curves_remove curve, Regions_updatePlacement (placement info)] \<rparr>)) \<and>
   (state w = State_transaction tr \<longrightarrow>
      addCurve C curve w =
        (Inr (), w\<lparr> state := State_transaction
                       (tr\<lparr> added := set_add (simpleName curve) (added tr) \<rparr>) \<rparr>)) \<and>
   (state w = State_transaction tr \<and> curves_cascade C curve tr (ext w) = (r, tr', x') \<longrightarrow>
      removeCurve C curve w =
        (r, w\<lparr> state := State_transaction tr', ext := x',
               calls := calls w @ [Curves_cascade curve] \<rparr>))"
proof -
  have idle_add: "addCurve C curve w =
      (r, w\<lparr> ext := x2,
             calls := calls w @ [Curves_add curve, Regions_updatePlacement (placement info)] \<rparr>)"
    if "state w = State_none" "curves_add C curve (ext w) = (Inr (), x1)"
      "curves_lookup C (simpleName curve) x1 = Inr (Some info)"
      "regions_updatePlacement C (placement info) x1 = (r, x2)"
    using that by (simp add: addCurve_def andThen_def invoke_def lookup_def)
  have idle_remove: "removeCurve C curve w =
      (r, w\<lparr> ext := x2,
             calls := calls w @ [Curves_remove curve, Regions_updatePlacement (placement info)] \<rparr>)"
    if "state w = State_none" "curves_lookup C (simpleName curve) (ext w) = Inr (Some info)"
      "curves_remove C curve (ext w) = (Inr (), x1)"
      "regions_updatePlacement C (placement info) x1 = (r, x2)"
    using that by (simp add: removeCurve_def andThen_def invoke_def lookup_def)
  have active_add: "addCurve C curve w =
      (Inr (), w\<lparr> state := State_transaction
                     (tr\<lparr> added := set_add (simpleName curve) (added tr) \<rparr>) \<rparr>)"
    if "state w = State_transaction tr"
    using that by (simp add: addCurve_def)
  have active_remove: "removeCurve C curve w =
      (r, w\<lparr> state := State_transaction tr', ext := x',
             calls := calls w @ [Curves_cascade curve] \<rparr>)"
    if "state w = State_transaction tr" "curves_cascade C curve tr (ext w) = (r, tr', x')"
    using that by (simp add: removeCurve_def)
  show ?thesis
    using idle_add idle_remove active_add active_remove by blast
qed

text \<open>Curve 2 of the chain, idle and inside a fresh transaction.\<close>

theorem state_dispatch_witness:
  "state chain_world = State_none \<and>
   state chain_active = State_transaction empty_transaction \<and>
   fst (addCurve contract (SpaceInstance 2) chain_world) = Inr () \<and>
   calls (snd (addCurve contract (SpaceInstance 2) chain_world)) =
     [Curves_add (SpaceInstance 2), Regions_updatePlacement 7] \<and>
   fst (removeCurve contract (SpaceInstance 2) chain_world) = Inr () \<and>
   calls (snd (removeCurve contract (SpaceInstance 2) chain_world)) =
     [Curves_remove (SpaceInstance 2), Regions_updatePlacement 7] \<and>
   curve2info (ext (snd (removeCurve contract (SpaceInstance 2) chain_world))) 2 = None \<and>
   addCurve contract (SpaceInstance 2) chain_active =
     (Inr (), chain_active\<lparr> state := State_transaction \<lparr> dirty = [], added = [2], deleted = [] \<rparr> \<rparr>) \<and>
   removeCurve contract (SpaceInstance 2) chain_active =
     (Inr (), chain_active\<lparr> state := State_transaction \<lparr> dirty = [1, 3], added = [], deleted = [2] \<rparr>,
                            calls := [Curves_cascade (SpaceInstance 2)] \<rparr>)"
proof -
  let ?info = "chain_info 2 (Some (joint_between 1 2)) (Some (joint_between 2 3))"
  let ?gone = "chain_store\<lparr> curve2info := (curve2info chain_store)(2 := None) \<rparr>"
  have idle: "state chain_world = State_none"
    by (simp add: chain_world_def)
  have active: "state chain_active = State_transaction empty_transaction"
    by (simp add: chain_active_def)
  have add: "curves_add contract (SpaceInstance 2) (ext chain_world) = (Inr (), chain_store)"
    by (simp add: example_defs contract_defs)
  have look: "curves_lookup contract (simpleName (SpaceInstance 2)) chain_store = Inr (Some ?info)"
    by (simp add: example_defs contract_defs)
  have look': "curves_lookup contract (simpleName (SpaceInstance 2)) (ext chain_world)
      = Inr (Some ?info)"
    by (simp add: example_defs contract_defs)
  have upd: "regions_updatePlacement contract (placement ?info) chain_store = (Inr (), chain_store)"
    by (simp add: contract_def)
  have rem: "curves_remove contract (SpaceInstance 2) (ext chain_world) = (Inr (), ?gone)"
    by (simp add: example_defs contract_defs)
  have upd': "regions_updatePlacement contract (placement ?info) ?gone = (Inr (), ?gone)"
    by (simp add: contract_def)
  have casc: "curves_cascade contract (SpaceInstance 2) empty_transaction (ext chain_active)
      = (Inr (), \<lparr> dirty = [1, 3], added = [], deleted = [2] \<rparr>, ext chain_active)"
    by (simp add: example_defs contract_defs set_add_def empty_transaction_def)
  have one: "addCurve contract (SpaceInstance 2) chain_world =
      (Inr (), chain_world\<lparr> ext := chain_store,
         calls := calls chain_world @
           [Curves_add (SpaceInstance 2), Regions_updatePlacement (placement ?info)] \<rparr>)"
    using state_dispatch [where C = contract and w = chain_world and curve = "SpaceInstance 2"
        and ?x1.0 = chain_store and info = ?info and r = "Inr ()" and ?x2.0 = chain_store]
      idle add look upd by blast
  have two: "removeCurve contract (SpaceInstance 2) chain_world =
      (Inr (), chain_world\<lparr> ext := ?gone,
         calls := calls chain_world @
           [Curves_remove (SpaceInstance 2), Regions_updatePlacement (placement ?info)] \<rparr>)"
    using state_dispatch [where C = contract and w = chain_world and curve = "SpaceInstance 2"
        and ?x1.0 = ?gone and info = ?info and r = "Inr ()" and ?x2.0 = ?gone]
      idle look' rem upd' by blast
  have three: "addCurve contract (SpaceInstance 2) chain_active =
      (Inr (), chain_active\<lparr> state := State_transaction
         (empty_transaction\<lparr> added := set_add (simpleName (SpaceInstance 2))
            (added empty_transaction) \<rparr>) \<rparr>)"
    using state_dispatch [where C = contract and w = chain_active and curve = "SpaceInstance 2"
        and tr = empty_transaction]
      active by blast
  have four: "removeCurve contract (SpaceInstance 2) chain_active =
      (Inr (), chain_active\<lparr> state := State_transaction \<lparr> dirty = [1, 3], added = [], deleted = [2] \<rparr>,
         ext := ext chain_active,
         calls := calls chain_active @ [Curves_cascade (SpaceInstance 2)] \<rparr>)"
    using state_dispatch [where C = contract and w = chain_active and curve = "SpaceInstance 2"
        and tr = empty_transaction and r = "Inr ()"
        and tr' = "\<lparr> dirty = [1, 3], added = [], deleted = [2] \<rparr>" and x' = "ext chain_active"]
      active casc by blast
  show ?thesis
    using idle active
    by (simp add: one two three four)
       (simp add: chain_world_def chain_active_def chain_info_def set_add_def empty_transaction_def)
qed

section \<open>Routing of the item operations\<close>

text \<open>
  C6. Curve-typed routing. For a \<^verbatim>\<open>SpaceInstance\<close> every item operation is the database
  call, then the curve calls, then the database's result: \<^verbatim>\<open>hide\<close> and \<^verbatim>\<open>removeItem\<close>
  go through \<^verbatim>\<open>removeCurve\<close>, \<^verbatim>\<open>unhide\<close> through \<^verbatim>\<open>addCurve\<close>, \<^verbatim>\<open>makeVisible\<close> through
  \<^verbatim>\<open>addCurve\<close> when the flag is set and \<^verbatim>\<open>removeCurve\<close> when it is not, \<^verbatim>\<open>replaceItem\<close>
  through \<^verbatim>\<open>removeCurve\<close> of the old item and then \<^verbatim>\<open>addCurve\<close> of the new one, and
  \<^verbatim>\<open>addItem\<close> through \<^verbatim>\<open>addCurve\<close> of the item that the database returns when that item
  is a \<^verbatim>\<open>SpaceInstance\<close>. A throw of the database call ends the operation before any
  curve call, and a throw of a curve call replaces the result.
\<close>

theorem curve_routing:
  "hide C (SpaceInstance n) =
     andThen (invoke (Db_hide (SpaceInstance n)) (db_hide C (SpaceInstance n)))
       (\<lambda>result. andThen (removeCurve C (SpaceInstance n)) (\<lambda>_. ret result)) \<and>
   unhide C (SpaceInstance n) =
     andThen (invoke (Db_unhide (SpaceInstance n)) (db_unhide C (SpaceInstance n)))
       (\<lambda>result. andThen (addCurve C (SpaceInstance n)) (\<lambda>_. ret result)) \<and>
   makeVisible C (SpaceInstance n) True =
     andThen (invoke (Db_makeVisible (SpaceInstance n) True)
                (db_makeVisible C (SpaceInstance n) True))
       (\<lambda>result. andThen (addCurve C (SpaceInstance n)) (\<lambda>_. ret result)) \<and>
   makeVisible C (SpaceInstance n) False =
     andThen (invoke (Db_makeVisible (SpaceInstance n) False)
                (db_makeVisible C (SpaceInstance n) False))
       (\<lambda>result. andThen (removeCurve C (SpaceInstance n)) (\<lambda>_. ret result)) \<and>
   addItem C model agent =
     andThen (invoke (Db_addItem model (agent_or_user agent))
                (db_addItem C model (agent_or_user agent)))
       (\<lambda>result. case result of
                    SpaceInstance k \<Rightarrow> andThen (addCurve C result) (\<lambda>_. ret result)
                  | Solid k \<Rightarrow> ret result
                  | PlaneInstance k \<Rightarrow> ret result) \<and>
   removeItem C (SpaceInstance n) agent' =
     andThen (invoke (Db_removeItem (SpaceInstance n) agent')
                (db_removeItem C (SpaceInstance n) agent'))
       (\<lambda>result. andThen (removeCurve C (SpaceInstance n)) (\<lambda>_. ret result)) \<and>
   replaceItem C (SpaceInstance n) to =
     andThen (invoke (Db_replaceItem (SpaceInstance n) to) (db_replaceItem C (SpaceInstance n) to))
       (\<lambda>result. andThen (removeCurve C (SpaceInstance n))
          (\<lambda>_. andThen (addCurve C result) (\<lambda>_. ret result)))"
proof -
  have "(\<lambda>result. if instanceof_SpaceInstance result
                   then andThen (addCurve C result) (\<lambda>_. ret result) else ret result)
      = (\<lambda>result. case result of
                    SpaceInstance k \<Rightarrow> andThen (addCurve C result) (\<lambda>_. ret result)
                  | Solid k \<Rightarrow> ret result
                  | PlaneInstance k \<Rightarrow> ret result)"
    by (rule ext) (simp split: Item.splits)
  then show ?thesis
    by (simp add: hide_def unhide_def makeVisible_def addItem_def removeItem_def replaceItem_def)
qed

text \<open>
  The operations on curve 2 of the chain in the idle state, and \<^verbatim>\<open>addItem\<close> of a curve
  model, which the database names 7.
\<close>

theorem curve_routing_witness:
  "calls (snd (hide contract (SpaceInstance 2) chain_world)) =
     [Db_hide (SpaceInstance 2), Curves_remove (SpaceInstance 2), Regions_updatePlacement 7] \<and>
   calls (snd (unhide contract (SpaceInstance 2) chain_world)) =
     [Db_unhide (SpaceInstance 2), Curves_add (SpaceInstance 2), Regions_updatePlacement 7] \<and>
   calls (snd (makeVisible contract (SpaceInstance 2) True chain_world)) =
     [Db_makeVisible (SpaceInstance 2) True, Curves_add (SpaceInstance 2),
      Regions_updatePlacement 7] \<and>
   calls (snd (makeVisible contract (SpaceInstance 2) False chain_world)) =
     [Db_makeVisible (SpaceInstance 2) False, Curves_remove (SpaceInstance 2),
      Regions_updatePlacement 7] \<and>
   addItem contract (c3d_SpaceInstance 0) None chain_world =
     (Inr (SpaceInstance 7),
      chain_world\<lparr> ext := register 7 (chain_store\<lparr> counter := 8 \<rparr>),
        calls := [Db_addItem (c3d_SpaceInstance 0) ''user'', Curves_add (SpaceInstance 7),
                  Regions_updatePlacement 7] \<rparr>) \<and>
   calls (snd (removeItem contract (SpaceInstance 2) None chain_world)) =
     [Db_removeItem (SpaceInstance 2) None, Curves_remove (SpaceInstance 2),
      Regions_updatePlacement 7] \<and>
   fst (replaceItem contract (SpaceInstance 2) (c3d_SpaceInstance 0) chain_world)
     = Inr (SpaceInstance 7) \<and>
   calls (snd (replaceItem contract (SpaceInstance 2) (c3d_SpaceInstance 0) chain_world)) =
     [Db_replaceItem (SpaceInstance 2) (c3d_SpaceInstance 0), Curves_remove (SpaceInstance 2),
      Regions_updatePlacement 7, Curves_add (SpaceInstance 7), Regions_updatePlacement 7]"
  by (simp add: curve_routing [where C = contract] agent_or_user_def)
     (simp add: example_defs manager_defs contract_defs)

section \<open>Items that are not curves\<close>

text \<open>
  C9. Non-curve frame property. For an item that is not a \<^verbatim>\<open>SpaceInstance\<close>, \<^verbatim>\<open>hide\<close>,
  \<^verbatim>\<open>unhide\<close>, \<^verbatim>\<open>makeVisible\<close>, \<^verbatim>\<open>removeItem\<close> and \<^verbatim>\<open>replaceItem\<close> are the database
  call and nothing else: they return what it returns, the state of the manager with its
  transaction is unchanged, and the database call is the only call made. The same holds
  for \<^verbatim>\<open>addItem\<close> when the item that the database returns is not a \<^verbatim>\<open>SpaceInstance\<close>.
\<close>

theorem non_curve_frame:
  "\<not> instanceof_SpaceInstance item \<Longrightarrow>
     hide C item = invoke (Db_hide item) (db_hide C item) \<and>
     unhide C item = invoke (Db_unhide item) (db_unhide C item) \<and>
     makeVisible C item val = invoke (Db_makeVisible item val) (db_makeVisible C item val) \<and>
     removeItem C item agent' = invoke (Db_removeItem item agent') (db_removeItem C item agent') \<and>
     replaceItem C item to = invoke (Db_replaceItem item to) (db_replaceItem C item to) \<and>
     (db_addItem C model (agent_or_user agent) (ext w) = (Inr item, x') \<longrightarrow>
        addItem C model agent w =
          (Inr item, w\<lparr> ext := x', calls := calls w @ [Db_addItem model (agent_or_user agent)] \<rparr>)) \<and>
     state (snd (hide C item w)) = state w \<and>
     state (snd (unhide C item w)) = state w \<and>
     state (snd (makeVisible C item val w)) = state w \<and>
     state (snd (removeItem C item agent' w)) = state w \<and>
     state (snd (replaceItem C item to w)) = state w \<and>
     calls (snd (hide C item w)) = calls w @ [Db_hide item] \<and>
     calls (snd (unhide C item w)) = calls w @ [Db_unhide item] \<and>
     calls (snd (makeVisible C item val w)) = calls w @ [Db_makeVisible item val] \<and>
     calls (snd (removeItem C item agent' w)) = calls w @ [Db_removeItem item agent'] \<and>
     calls (snd (replaceItem C item to w)) = calls w @ [Db_replaceItem item to]"
  by (simp add: hide_def unhide_def makeVisible_def addItem_def removeItem_def replaceItem_def
      andThen_ret)
     (simp add: invoke_def andThen_def ret_def split: prod.splits)

text \<open>
  Solid 5, which is hidden already, is hidden, unhidden and replaced while a transaction
  is active, and a solid is added: the transaction stays empty.
\<close>

theorem non_curve_frame_witness:
  "\<not> instanceof_SpaceInstance (Solid 5) \<and>
   hide contract (Solid 5) chain_active =
     (Inr (), chain_active\<lparr> calls := [Db_hide (Solid 5)] \<rparr>) \<and>
   unhide contract (Solid 5) chain_active =
     (Inr (), chain_active\<lparr> ext := chain_store\<lparr> hidden := [SpaceInstance 4, SpaceInstance 6] \<rparr>,
                            calls := [Db_unhide (Solid 5)] \<rparr>) \<and>
   state (snd (replaceItem contract (Solid 5) (c3d_Solid 0) chain_active))
     = State_transaction empty_transaction \<and>
   calls (snd (replaceItem contract (Solid 5) (c3d_Solid 0) chain_active))
     = [Db_replaceItem (Solid 5) (c3d_Solid 0)] \<and>
   addItem contract (c3d_Solid 0) None chain_active =
     (Inr (Solid 7), chain_active\<lparr> ext := chain_store\<lparr> counter := 8 \<rparr>,
                                   calls := [Db_addItem (c3d_Solid 0) ''user''] \<rparr>)"
proof -
  have solid: "\<not> instanceof_SpaceInstance (Solid 5)" "\<not> instanceof_SpaceInstance (Solid 7)"
    by simp_all
  have db: "db_addItem contract (c3d_Solid 0) (agent_or_user None) (ext chain_active)
      = (Inr (Solid 7), chain_store\<lparr> counter := 8 \<rparr>)"
    by (simp add: example_defs contract_defs agent_or_user_def)
  note frame5 = non_curve_frame [OF solid(1), where C = contract and w = chain_active
      and to = "c3d_Solid 0" and val = True and agent' = None
      and model = "c3d_Solid 0" and agent = None and x' = "chain_store\<lparr> counter := 8 \<rparr>"]
  note frame7 = non_curve_frame [OF solid(2), where C = contract and w = chain_active
      and to = "c3d_Solid 0" and val = True and agent' = None
      and model = "c3d_Solid 0" and agent = None and x' = "chain_store\<lparr> counter := 8 \<rparr>"]
  have "hide contract (Solid 5) = invoke (Db_hide (Solid 5)) (db_hide contract (Solid 5))"
    using frame5 by blast
  then have one: "hide contract (Solid 5) chain_active
      = invoke (Db_hide (Solid 5)) (db_hide contract (Solid 5)) chain_active"
    by simp
  have "unhide contract (Solid 5) = invoke (Db_unhide (Solid 5)) (db_unhide contract (Solid 5))"
    using frame5 by blast
  then have one': "unhide contract (Solid 5) chain_active
      = invoke (Db_unhide (Solid 5)) (db_unhide contract (Solid 5)) chain_active"
    by simp
  have two: "state (snd (replaceItem contract (Solid 5) (c3d_Solid 0) chain_active))
      = state chain_active"
    "calls (snd (replaceItem contract (Solid 5) (c3d_Solid 0) chain_active))
      = calls chain_active @ [Db_replaceItem (Solid 5) (c3d_Solid 0)]"
    using frame5 by blast+
  have three: "addItem contract (c3d_Solid 0) None chain_active =
      (Inr (Solid 7), chain_active\<lparr> ext := chain_store\<lparr> counter := 8 \<rparr>,
         calls := calls chain_active @ [Db_addItem (c3d_Solid 0) (agent_or_user None)] \<rparr>)"
    using frame7 db by blast
  show ?thesis
    using solid(1)
    by (simp add: one one' two three)
       (simp add: invoke_def example_defs contract_defs set_add_def agent_or_user_def)
qed

section \<open>Unhiding everything\<close>

text \<open>
  C10. \<^verbatim>\<open>unhideAll\<close> bypasses the transaction wrapper. In the idle state, with
  collaborators that honour the calls, \<^verbatim>\<open>unhideAll\<close> returns the unhidden items and
  leaves the state idle. After the database call it makes one \<^verbatim>\<open>add\<close> for each unhidden
  \<^verbatim>\<open>SpaceInstance\<close>, in the order of the list and before anything else, and then one
  \<^verbatim>\<open>updatePlacement\<close> for each of them: every curve is registered at once and has its
  own rebuild, as many rebuilds as curves, and there is no \<^verbatim>\<open>commit\<close>.
\<close>

theorem unhideAll_without_transaction:
  assumes "obliging C" and "state w = State_none"
    and "db_unhideAll C (ext w) = (Inr unhidden, x0)"
  shows "\<exists>ps. length ps = length (filter instanceof_SpaceInstance unhidden) \<and>
       fst (unhideAll C w) = Inr unhidden \<and>
       state (snd (unhideAll C w)) = State_none \<and>
       calls (snd (unhideAll C w)) =
         calls w @ Db_unhideAll # map Curves_add (filter instanceof_SpaceInstance unhidden) @
           map Regions_updatePlacement ps"
proof -
  let ?curves = "filter instanceof_SpaceInstance unhidden"
  let ?w0 = "w\<lparr> ext := x0, calls := calls w @ [Db_unhideAll] \<rparr>"
  have "state ?w0 = State_none" using assms(2) by simp
  then obtain w1 where started:
    "addCurve_start_each C unhidden ?w0 = (map (\<lambda>curve. (curve, Inr ())) ?curves, w1)"
    "state w1 = State_none"
    "calls w1 = calls ?w0 @ map Curves_add ?curves"
    "\<forall>curve \<in> set ?curves. known C (ext w1) (simpleName curve)"
    using addCurve_start_each_idle [OF assms(1), of ?w0 unhidden] by blast
  obtain ps w2 where resumed:
    "length ps = length ?curves"
    "addCurve_resume_each C (map (\<lambda>curve. (curve, Inr ())) ?curves) w1 = (([], []), w2)"
    "state w2 = state w1"
    "calls w2 = calls w1 @ map Regions_updatePlacement ps"
    using addCurve_resume_each_idle [OF assms(1) started(4)] by blast
  have "unhideAll C w = (Inr unhidden, w2)"
    using assms(3) started(1) resumed(2)
    by (simp add: unhideAll_def andThen_def invoke_def settle_def)
  then show ?thesis
    using started(2) started(3) resumed(1) resumed(3) resumed(4) by auto
qed

text \<open>
  Curves 4 and 6 and solid 5 are hidden, all on plane 7: both curves are added, then the
  plane is rebuilt twice, once for each curve.
\<close>

theorem unhideAll_without_transaction_witness:
  "obliging contract \<and> state chain_world = State_none \<and>
   db_unhideAll contract (ext chain_world) =
     (Inr [SpaceInstance 4, Solid 5, SpaceInstance 6], chain_store\<lparr> hidden := [] \<rparr>) \<and>
   (\<exists>ps. length ps = length (filter instanceof_SpaceInstance [SpaceInstance 4, Solid 5, SpaceInstance 6]) \<and>
       fst (unhideAll contract chain_world) = Inr [SpaceInstance 4, Solid 5, SpaceInstance 6] \<and>
       state (snd (unhideAll contract chain_world)) = State_none \<and>
       calls (snd (unhideAll contract chain_world)) =
         calls chain_world @ Db_unhideAll #
           map Curves_add (filter instanceof_SpaceInstance [SpaceInstance 4, Solid 5, SpaceInstance 6]) @
           map Regions_updatePlacement ps) \<and>
   calls (snd (unhideAll contract chain_world)) =
     [Db_unhideAll, Curves_add (SpaceInstance 4), Curves_add (SpaceInstance 6),
      Regions_updatePlacement 7, Regions_updatePlacement 7]"
proof -
  have ob: "obliging contract"
    by (rule obliging_contract)
  have idle: "state chain_world = State_none"
    by (simp add: chain_world_def)
  have db: "db_unhideAll contract (ext chain_world) =
     (Inr [SpaceInstance 4, Solid 5, SpaceInstance 6], chain_store\<lparr> hidden := [] \<rparr>)"
    by (simp add: example_defs contract_defs)
  have run: "calls (snd (unhideAll contract chain_world)) =
     [Db_unhideAll, Curves_add (SpaceInstance 4), Curves_add (SpaceInstance 6),
      Regions_updatePlacement 7, Regions_updatePlacement 7]"
    by (simp add: unhideAll_def settle_def example_defs manager_defs contract_defs)
  show ?thesis
    using ob idle db run unhideAll_without_transaction [OF ob idle db] by blast
qed

section \<open>The three sets of a transaction\<close>

text \<open>
  C7, as stated, fails, for each pair of sets. On the chain of curves 1, 2 and 3:
  removing curve 2 and then adding it, or adding it and then removing it, leaves 2 in
  \<open>added\<close> and in \<open>deleted\<close>, since \<^verbatim>\<open>addCurve\<close> adds the name whatever the other sets
  hold (line 127) and the cascade does the same with \<open>deleted\<close>; removing curves 2 and 3
  leaves 3 in \<open>deleted\<close> and in \<open>dirty\<close>; adding curve 1 and removing curve 2 leaves 1 in
  \<open>added\<close> and in \<open>dirty\<close>.
\<close>

theorem sets_disjoint_counterexample:
  "state (snd (perform contract remove_then_add chain_active)) =
     State_transaction \<lparr> dirty = [1, 3], added = [2], deleted = [2] \<rparr> \<and>
   \<not> pairwise_disjoint (the_transaction (state (snd (perform contract remove_then_add chain_active)))) \<and>
   state (snd (perform contract add_then_remove chain_active)) =
     State_transaction \<lparr> dirty = [1, 3], added = [2], deleted = [2] \<rparr> \<and>
   \<not> pairwise_disjoint (the_transaction (state (snd (perform contract add_then_remove chain_active)))) \<and>
   state (snd (perform contract remove_2_3 chain_active)) =
     State_transaction \<lparr> dirty = [1, 3], added = [], deleted = [2, 3] \<rparr> \<and>
   \<not> pairwise_disjoint (the_transaction (state (snd (perform contract remove_2_3 chain_active)))) \<and>
   state (snd (perform contract add_1_remove_2 chain_active)) =
     State_transaction \<lparr> dirty = [1, 3], added = [1], deleted = [2] \<rparr> \<and>
   \<not> pairwise_disjoint (the_transaction (state (snd (perform contract add_1_remove_2 chain_active))))"
  by (simp add: pairwise_disjoint_def example_defs manager_defs contract_defs)

text \<open>
  C7, amended. At every point of a body that calls \<^verbatim>\<open>addCurve\<close> and \<^verbatim>\<open>removeCurve\<close>,
  \<open>added\<close> holds the curves passed to \<^verbatim>\<open>addCurve\<close> so far, \<open>deleted\<close> the curves passed to
  \<^verbatim>\<open>removeCurve\<close> so far, and \<open>dirty\<close> only curves that a joint of a removed curve
  references. So \<open>added\<close> and \<open>deleted\<close> are disjoint exactly when no curve has been both
  added and removed, in either order; and the three sets are pairwise disjoint whenever
  no curve is both added and removed in the transaction and no added or removed curve is
  referenced by a joint of a removed curve.
\<close>

theorem sets_disjoint_without_overlap:
  assumes "state w = State_transaction empty_transaction"
  shows "\<exists>tr. state (snd (perform contract (take k ops) w)) = State_transaction tr \<and>
              fst (perform contract (take k ops) w) = Inr () \<and>
              set (added tr) = set (added_ids (take k ops)) \<and>
              set (deleted tr) = set (removed_ids (take k ops)) \<and>
              set (dirty tr) \<subseteq>
                (\<Union>c \<in> set (removed_ids (take k ops)). set (partners (curve2info (ext w)) c)) \<and>
              (set (added tr) \<inter> set (deleted tr) = {} \<longleftrightarrow>
                 set (added_ids (take k ops)) \<inter> set (removed_ids (take k ops)) = {}) \<and>
              (set (added_ids ops) \<inter> set (removed_ids ops) = {} \<and>
               (\<Union>c \<in> set (removed_ids ops). set (partners (curve2info (ext w)) c)) \<inter>
                 (set (added_ids ops) \<union> set (removed_ids ops)) = {} \<longrightarrow>
               pairwise_disjoint tr)"
proof -
  let ?m = "curve2info (ext w)"
  let ?ops = "take k ops"
  let ?tr = "fold (record_op ?m) ?ops empty_transaction"
  have run: "perform contract ?ops w =
     (Inr (), w\<lparr> state := State_transaction ?tr, calls := calls w @ cascade_calls ?ops \<rparr>)"
    using perform_contract [OF assms] .
  have a: "set (added ?tr) = set (added_ids ?ops)"
    by (simp add: set_added_fold_record_op empty_transaction_def)
  have d: "set (deleted ?tr) = set (removed_ids ?ops)"
    by (simp add: set_deleted_fold_record_op empty_transaction_def)
  have "set (dirty ?tr) \<subseteq>
      set (dirty empty_transaction) \<union> (\<Union>c \<in> set (removed_ids ?ops). set (partners ?m c))"
    by (rule set_dirty_fold_record_op)
  then have p: "set (dirty ?tr) \<subseteq> (\<Union>c \<in> set (removed_ids ?ops). set (partners ?m c))"
    by (simp add: empty_transaction_def)
  have pd: "pairwise_disjoint ?tr"
    if c1: "set (added_ids ops) \<inter> set (removed_ids ops) = {}"
      and c2: "(\<Union>c \<in> set (removed_ids ops). set (partners ?m c)) \<inter>
           (set (added_ids ops) \<union> set (removed_ids ops)) = {}"
  proof -
    have sa: "set (added_ids ?ops) \<subseteq> set (added_ids ops)" by (rule added_ids_take)
    have sr: "set (removed_ids ?ops) \<subseteq> set (removed_ids ops)" by (rule removed_ids_take)
    have c1': "set (added_ids ?ops) \<inter> set (removed_ids ?ops) = {}"
      using c1 sa sr by blast
    have c2': "(\<Union>c \<in> set (removed_ids ?ops). set (partners ?m c)) \<inter>
           (set (added_ids ?ops) \<union> set (removed_ids ?ops)) = {}"
      using c2 sa sr by blast
    show ?thesis
      using pairwise_disjoint_fold [OF c1' c2'] .
  qed
  have "state (snd (perform contract ?ops w)) = State_transaction ?tr"
    "fst (perform contract ?ops w) = Inr ()"
    using run by simp_all
  moreover have "set (added ?tr) \<inter> set (deleted ?tr) = {} \<longleftrightarrow>
      set (added_ids ?ops) \<inter> set (removed_ids ?ops) = {}"
    using a d by simp
  ultimately show ?thesis
    using a d p pd by blast
qed

text \<open>The body adds curve 8 and removes curve 2, whose joints reference curves 1 and 3.\<close>

theorem sets_disjoint_without_overlap_witness:
  "state chain_active = State_transaction empty_transaction \<and>
   set (added_ids add_8_remove_2) \<inter> set (removed_ids add_8_remove_2) = {} \<and>
   (\<Union>c \<in> set (removed_ids add_8_remove_2). set (partners (curve2info (ext chain_active)) c)) \<inter>
      (set (added_ids add_8_remove_2) \<union> set (removed_ids add_8_remove_2)) = {} \<and>
   (\<exists>tr. state (snd (perform contract (take 2 add_8_remove_2) chain_active)) = State_transaction tr \<and>
         fst (perform contract (take 2 add_8_remove_2) chain_active) = Inr () \<and>
         set (added tr) = set (added_ids (take 2 add_8_remove_2)) \<and>
         set (deleted tr) = set (removed_ids (take 2 add_8_remove_2)) \<and>
         set (dirty tr) \<subseteq>
           (\<Union>c \<in> set (removed_ids (take 2 add_8_remove_2)).
              set (partners (curve2info (ext chain_active)) c)) \<and>
         set (added tr) \<inter> set (deleted tr) = {} \<and>
         pairwise_disjoint tr) \<and>
   state (snd (perform contract add_8_remove_2 chain_active)) =
     State_transaction \<lparr> dirty = [1, 3], added = [8], deleted = [2] \<rparr>"
proof -
  have active: "state chain_active = State_transaction empty_transaction"
    by (simp add: chain_active_def)
  have c1: "set (added_ids add_8_remove_2) \<inter> set (removed_ids add_8_remove_2) = {}"
    by (simp add: add_8_remove_2_def)
  have c1': "set (added_ids (take 2 add_8_remove_2)) \<inter> set (removed_ids (take 2 add_8_remove_2)) = {}"
    by (simp add: add_8_remove_2_def)
  have c2: "(\<Union>c \<in> set (removed_ids add_8_remove_2).
        set (partners (curve2info (ext chain_active)) c)) \<inter>
      (set (added_ids add_8_remove_2) \<union> set (removed_ids add_8_remove_2)) = {}"
    by (simp add: example_defs contract_defs)
  have run: "state (snd (perform contract add_8_remove_2 chain_active)) =
     State_transaction \<lparr> dirty = [1, 3], added = [8], deleted = [2] \<rparr>"
    by (simp add: example_defs manager_defs contract_defs)
  have "\<exists>tr. state (snd (perform contract (take 2 add_8_remove_2) chain_active)) = State_transaction tr \<and>
         fst (perform contract (take 2 add_8_remove_2) chain_active) = Inr () \<and>
         set (added tr) = set (added_ids (take 2 add_8_remove_2)) \<and>
         set (deleted tr) = set (removed_ids (take 2 add_8_remove_2)) \<and>
         set (dirty tr) \<subseteq>
           (\<Union>c \<in> set (removed_ids (take 2 add_8_remove_2)).
              set (partners (curve2info (ext chain_active)) c)) \<and>
         set (added tr) \<inter> set (deleted tr) = {} \<and>
         pairwise_disjoint tr"
    using sets_disjoint_without_overlap [OF active, of 2 add_8_remove_2] c1 c1' c2 by blast
  then show ?thesis
    using active c1 c2 run by blast
qed

section \<open>Lookups of unknown curves\<close>






end
